theory Spec2Isabelle
  imports Complex_Main "HOL-Library.Sublist" "HOL-Library.Multiset"
begin

section \<open>Simulation core of the runner game (src/GameCanvas.tsx)\<close>

text \<open>
  The TypeScript source works on JavaScript numbers. In this development a number that
  the program only ever holds as an integer (score value, hit points, damage, attack
  bonus, segment counts, the spawn cursor) is an \<^typ>\<open>int\<close>; positions, sizes,
  velocities, times and distances are \<^typ>\<open>real\<close>. Rounding of IEEE doubles, NaN and
  Infinity are outside the model. \<open>Math.floor\<close> of a quotient of integers is integer
  \<open>div\<close> (which rounds towards minus infinity, as \<open>Math.floor\<close> does).
\<close>

subsection \<open>Data model (lines 5-17)\<close>

datatype GateOpType = Add | Sub | Mul | Div

text \<open>The \<open>label\<close> of a gate operation is only drawn, never read by the simulation.\<close>

record GateOp =
  type :: GateOpType
  amount :: int

record Rect =
  x :: real
  y :: real
  w :: real
  h :: real

record Gate = Rect +
  op :: GateOp
  used :: bool

text \<open>
  \<open>Enemy\<close> and \<open>Obstacle\<close> are both \<open>Rect & { hp; ... }\<close> in the source; the shared
  \<open>hp\<close> field is one record extension here.
\<close>

record Mortal = Rect +
  hp :: int

record Enemy = Mortal +
  damage :: int

record Obstacle = Mortal +
  maxHp :: int

text \<open>
  The optional \<open>collected\<close> flag of an item is absent (falsy) at creation: \<open>False\<close>.
  The tag \<open>type: "attack"\<close> has one value and is left out.
\<close>

record Item = Rect +
  item_vy :: real
  bonus :: int
  collected :: bool

record Bullet = Rect +
  vx :: real
  vy :: real
  life :: real
  dmg :: int

record Floater =
  f_text :: string
  f_x :: real
  f_y :: real
  f_vy :: real
  f_life :: real

record HudState =
  hud_value :: int
  hud_dist :: int
  hud_alive :: bool

subsection \<open>Constants and geometry (lines 19-46)\<close>

definition LOGICAL_W :: real where "LOGICAL_W = 360"
definition LOGICAL_H :: real where "LOGICAL_H = 640"

definition clamp :: "real \<Rightarrow> real \<Rightarrow> real \<Rightarrow> real" where
  "clamp v a b = max a (min b v)"

definition lerp :: "real \<Rightarrow> real \<Rightarrow> real \<Rightarrow> real" where
  "lerp a b t = a + (b - a) * t"

definition aabb :: "'a Rect_scheme \<Rightarrow> 'b Rect_scheme \<Rightarrow> bool" where
  "aabb a b \<longleftrightarrow>
     x a < x b + w b \<and> x a + w a > x b \<and> y a < y b + h b \<and> y a + h a > y b"

definition PLAYER_SEGMENT_WIDTH :: int where "PLAYER_SEGMENT_WIDTH = 10"
definition BASE_PLAYER_SEGMENT_SPACING :: int where "BASE_PLAYER_SEGMENT_SPACING = 8"
definition MIN_PLAYER_SEGMENT_SPACING :: int where "MIN_PLAYER_SEGMENT_SPACING = 2"
definition BOSS_INTERVAL :: real where "BOSS_INTERVAL = 2000"
definition BOSS_SPAWN_MARGIN :: real where "BOSS_SPAWN_MARGIN = 40"
definition BOSS_WIDTH :: real where "BOSS_WIDTH = 90"
definition BOSS_HEIGHT :: real where "BOSS_HEIGHT = 90"
definition MAX_PLAYER_SEGMENTS :: int where "MAX_PLAYER_SEGMENTS = 20"
definition MIN_PLAYER_WIDTH :: int where "MIN_PLAYER_WIDTH = 32"
definition OBSTACLE_WIDTH :: real where "OBSTACLE_WIDTH = 56"
definition OBSTACLE_HEIGHT :: real where "OBSTACLE_HEIGHT = 56"
definition OBSTACLE_HP_BASE :: int where "OBSTACLE_HP_BASE = 32"
definition OBSTACLE_HP_PER_DIST :: int where "OBSTACLE_HP_PER_DIST = 10"
definition ATTACK_ITEM_SIZE :: real where "ATTACK_ITEM_SIZE = 22"
definition ATTACK_ITEM_FALL_SPEED :: real where "ATTACK_ITEM_FALL_SPEED = 140"
definition MAX_ATTACK_BONUS :: int where "MAX_ATTACK_BONUS = 6"

lemmas game_consts =
  LOGICAL_W_def LOGICAL_H_def PLAYER_SEGMENT_WIDTH_def BASE_PLAYER_SEGMENT_SPACING_def
  MIN_PLAYER_SEGMENT_SPACING_def BOSS_INTERVAL_def BOSS_SPAWN_MARGIN_def BOSS_WIDTH_def
  BOSS_HEIGHT_def MAX_PLAYER_SEGMENTS_def MIN_PLAYER_WIDTH_def OBSTACLE_WIDTH_def
  OBSTACLE_HEIGHT_def OBSTACLE_HP_BASE_def OBSTACLE_HP_PER_DIST_def ATTACK_ITEM_SIZE_def
  ATTACK_ITEM_FALL_SPEED_def MAX_ATTACK_BONUS_def

subsection \<open>Crowd size (lines 48-82)\<close>

text \<open>The score value is an integer, so \<open>Math.floor(value)\<close> is the value itself.\<close>

definition getPlayerCount :: "int \<Rightarrow> int" where
  "getPlayerCount val =
     (let intValue = max 0 val in max 1 (min MAX_PLAYER_SEGMENTS intValue))"

definition getPlayerSegmentSpacing :: "int \<Rightarrow> int" where
  "getPlayerSegmentSpacing cnt =
     (if cnt \<le> 1 then BASE_PLAYER_SEGMENT_SPACING
      else let reduction = (cnt - 1) div 4
           in max MIN_PLAYER_SEGMENT_SPACING (BASE_PLAYER_SEGMENT_SPACING - reduction))"

definition getCrowdWidth :: "int \<Rightarrow> int" where
  "getCrowdWidth cnt =
     (if cnt \<le> 0 then MIN_PLAYER_WIDTH
      else cnt * PLAYER_SEGMENT_WIDTH + max 0 (cnt - 1) * getPlayerSegmentSpacing cnt)"

text \<open>Only the \<open>x\<close> of each segment is produced, as in the source.\<close>

definition getPlayerSegmentPositions :: "Rect \<Rightarrow> int \<Rightarrow> real list" where
  "getPlayerSegmentPositions player cnt =
     (let totalSegmentWidth = getCrowdWidth cnt;
          segmentStartX = x player + max 0 ((w player - of_int totalSegmentWidth) / 2);
          spacing = getPlayerSegmentSpacing cnt
      in map (\<lambda>i. segmentStartX + of_int i * of_int (PLAYER_SEGMENT_WIDTH + spacing))
             [0 .. cnt - 1])"

subsection \<open>Gate rule engine (lines 84-101)\<close>

text \<open>
  A zero \<open>amount\<close> under \<open>div\<close> gives NaN or Infinity in the source and \<open>0\<close> here; the
  only operations the program ever builds have amounts 5 and 2.
\<close>

definition applyGate :: "int \<Rightarrow> GateOp \<Rightarrow> int" where
  "applyGate val g =
     (let v = (case type g of
                 Add \<Rightarrow> val + amount g
               | Sub \<Rightarrow> val - amount g
               | Mul \<Rightarrow> val * amount g
               | Div \<Rightarrow> val div amount g)
      in max 0 v)"

text \<open>
  The four operations of \<open>spawnGatePair\<close> (lines 208-213), in the order of its table;
  a draw in \<open>[0, 1)\<close> times 4, truncated, is an index into it.
\<close>

definition gateOps :: "GateOp list" where
  "gateOps = [\<lparr>type = Add, amount = 5\<rparr>, \<lparr>type = Mul, amount = 2\<rparr>,
              \<lparr>type = Sub, amount = 5\<rparr>, \<lparr>type = Div, amount = 2\<rparr>]"

subsection \<open>World state (lines 149-178, 371-372)\<close>

text \<open>
  The closure variables of \<open>runGame\<close> that \<open>update\<close> reads or writes are one record: the
  \<open>state\<close> object, the \<open>player\<close> rectangle, the HUD accumulator and the last snapshot
  handed to \<open>setHud\<close>. \<open>Math.random\<close> is a stream \<open>rnd\<close> of numbers, read at \<open>rndPos\<close>;
  the host guarantees each draw is in \<open>[0, 1)\<close>.
\<close>

record State =
  time :: real
  dist :: real
  speed :: real
  scoreValue :: int
  alive :: bool
  targetX :: real
  pointerDown :: bool
  gates :: "Gate list"
  zombies :: "Enemy list"
  bosses :: "Enemy list"
  obstacles :: "Obstacle list"
  items :: "Item list"
  bullets :: "Bullet list"
  floaters :: "Floater list"
  shootCooldown :: real
  lastSeg :: int
  nextBossDist :: real
  attackBonus :: int
  player :: Rect
  hudAccum :: real
  hud :: HudState
  rnd :: "nat \<Rightarrow> real"
  rndPos :: nat

definition mathRandom :: "State \<Rightarrow> real \<times> State" where
  "mathRandom s = (rnd s (rndPos s), s\<lparr>rndPos := rndPos s + 1\<rparr>)"

text \<open>\<open>v | 0\<close> truncates towards zero (the 32-bit wrap is not reached by \<open>random * 6\<close>).\<close>

definition toInt :: "real \<Rightarrow> int" where
  "toInt r = (if r < 0 then \<lceil>r\<rceil> else \<lfloor>r\<rfloor>)"

text \<open>The remainder \<open>a % b\<close> of JavaScript takes the sign of the dividend.\<close>

definition jsRem :: "int \<Rightarrow> int \<Rightarrow> int" where
  "jsRem a b = (if a < 0 then - ((- a) mod \<bar>b\<bar>) else a mod \<bar>b\<bar>)"

subsection \<open>Number to text\<close>

function showNat :: "nat \<Rightarrow> string" where
  "showNat n =
     (if n < 10 then [''0123456789'' ! n]
      else showNat (n div 10) @ [''0123456789'' ! (n mod 10)])"
  by pat_completeness auto
termination
  by (relation "measure id") auto

declare showNat.simps [simp del]

definition showInt :: "int \<Rightarrow> string" where
  "showInt i = (if i < 0 then CHR ''-'' # showNat (nat (- i)) else showNat (nat i))"

text \<open>\<open>(delta >= 0 ? "+" : "") + delta\<close>\<close>

definition signedText :: "int \<Rightarrow> string" where
  "signedText delta = (if delta \<ge> 0 then ''+'' else []) @ showInt delta"

subsection \<open>Spawning (lines 197-318)\<close>

definition makeGate :: "real \<Rightarrow> real \<Rightarrow> real \<Rightarrow> real \<Rightarrow> GateOp \<Rightarrow> Gate" where
  "makeGate gx gy gw gh g = \<lparr>x = gx, y = gy, w = gw, h = gh, op = g, used = False\<rparr>"

definition spawnGatePair :: "real \<Rightarrow> State \<Rightarrow> State" where
  "spawnGatePair py s =
     (let (r1, s1) = mathRandom s;
          a = gateOps ! nat (toInt (r1 * of_nat (length gateOps)));
          (r2, s2) = mathRandom s1;
          b = gateOps ! nat (toInt (r2 * of_nat (length gateOps)));
          gateW = 130;
          gateH = 44;
          verticalSpacing = gateH + 120
      in s2\<lparr>gates := gates s2 @
                 [makeGate (LOGICAL_W * 0.25 - gateW / 2) py gateW gateH a,
                  makeGate (LOGICAL_W * 0.75 - gateW / 2) (py - verticalSpacing) gateW gateH b]\<rparr>)"

definition spawnZombie :: "real \<Rightarrow> nat \<Rightarrow> State \<Rightarrow> State" where
  "spawnZombie py i s =
     (let (r, s1) = mathRandom s;
          zx = 40 + r * (LOGICAL_W - 80)
      in s1\<lparr>zombies := zombies s1 @
                 [\<lparr>x = zx - 18, y = py + of_nat i * 40, w = 36, h = 36,
                   hp = 12 + \<lfloor>dist s1 / 200\<rfloor> * 8,
                   damage = 3 + \<lfloor>dist s1 / 1000\<rfloor>\<rparr>]\<rparr>)"

definition spawnZombies :: "real \<Rightarrow> State \<Rightarrow> State" where
  "spawnZombies py s =
     (let earlyWave = 6;
          (r, s1) = mathRandom s;
          randomBonus = 3 + toInt (r * 6);
          intensity = \<lfloor>dist s1 / 800\<rfloor>;
          cnt = min 40 (earlyWave + randomBonus + intensity)
      in fold (spawnZombie py) [0 ..< nat cnt] s1)"

definition spawnObstacle :: "real \<Rightarrow> State \<Rightarrow> State" where
  "spawnObstacle py s =
     (let hp0 = OBSTACLE_HP_BASE + \<lfloor>dist s / 300\<rfloor> * OBSTACLE_HP_PER_DIST;
          availableX = max 0 (LOGICAL_W - OBSTACLE_WIDTH - 60);
          (r, s1) = mathRandom s;
          px = 30 + r * availableX
      in s1\<lparr>obstacles := obstacles s1 @
                 [\<lparr>x = px, y = py, w = OBSTACLE_WIDTH, h = OBSTACLE_HEIGHT,
                   hp = hp0, maxHp = hp0\<rparr>]\<rparr>)"

definition spawnAttackItem :: "real \<Rightarrow> real \<Rightarrow> int \<Rightarrow> State \<Rightarrow> State" where
  "spawnAttackItem centerX topY bns s =
     s\<lparr>items := items s @
          [\<lparr>x = centerX - ATTACK_ITEM_SIZE / 2, y = topY, w = ATTACK_ITEM_SIZE,
            h = ATTACK_ITEM_SIZE, item_vy = ATTACK_ITEM_FALL_SPEED, bonus = bns,
            collected = False\<rparr>]\<rparr>"

definition spawnBoss :: "State \<Rightarrow> State" where
  "spawnBoss s =
     (let hp0 = 200 + \<lfloor>dist s / 400\<rfloor> * 50;
          availableWidth = max 0 (LOGICAL_W - BOSS_SPAWN_MARGIN * 2 - BOSS_WIDTH);
          (r, s1) = mathRandom s;
          px = BOSS_SPAWN_MARGIN + r * availableWidth
      in s1\<lparr>bosses := bosses s1 @
                 [\<lparr>x = px, y = - BOSS_HEIGHT - 120, w = BOSS_WIDTH, h = BOSS_HEIGHT,
                   hp = hp0, damage = 12 + \<lfloor>dist s1 / 800\<rfloor>\<rparr>],
            nextBossDist := nextBossDist s1 + BOSS_INTERVAL\<rparr>)"

lemma spawnBoss_dist [simp]: "dist (spawnBoss s) = dist s"
  by (simp add: spawnBoss_def mathRandom_def Let_def)

lemma spawnBoss_nextBossDist [simp]:
  "nextBossDist (spawnBoss s) = nextBossDist s + 2000"
  by (simp add: spawnBoss_def mathRandom_def Let_def BOSS_INTERVAL_def)

text \<open>
  \<open>while (state.dist >= state.nextBossDist) spawnBoss()\<close>: every round moves the
  threshold up by 2000, so the number of thresholds still to cross goes down.
\<close>

function ensureBossSpawn :: "State \<Rightarrow> State" where
  "ensureBossSpawn s =
     (if dist s \<ge> nextBossDist s then ensureBossSpawn (spawnBoss s) else s)"
  by pat_completeness auto
termination
proof (relation "measure (\<lambda>s. nat (\<lfloor>(dist s - nextBossDist s) / 2000\<rfloor> + 1))")
  show "wf (measure (\<lambda>s. nat (\<lfloor>(dist s - nextBossDist s) / 2000\<rfloor> + 1)))"
    by simp
next
  fix s :: State
  assume a: "nextBossDist s \<le> dist s"
  have e: "(dist s - (nextBossDist s + 2000)) / 2000 = (dist s - nextBossDist s) / 2000 - 1"
    by (simp add: field_simps)
  have "\<lfloor>(dist s - (nextBossDist s + 2000)) / 2000\<rfloor>
               = \<lfloor>(dist s - nextBossDist s) / 2000\<rfloor> - 1"
    unfolding e by (rule floor_diff_one)
  moreover from a have "0 \<le> \<lfloor>(dist s - nextBossDist s) / 2000\<rfloor>"
    by simp
  ultimately show "(spawnBoss s, s)
      \<in> measure (\<lambda>s. nat (\<lfloor>(dist s - nextBossDist s) / 2000\<rfloor> + 1))"
    by simp
qed

declare ensureBossSpawn.simps [simp del]

definition spawnSegment :: "State \<Rightarrow> State" where
  "spawnSegment s =
     (let segLen = 240;
          py = - 800 - of_int (lastSeg s) * segLen;
          m = jsRem (lastSeg s) 3
      in if m = 0 then spawnGatePair py s
         else if m = 1 then spawnZombies py s
         else spawnObstacle py s)"

lemma fold_spawnZombie_lastSeg: "lastSeg (fold (spawnZombie py) ns s) = lastSeg s"
  by (induction ns arbitrary: s) (simp_all add: spawnZombie_def mathRandom_def Let_def)

lemma spawnSegment_lastSeg [simp]: "lastSeg (spawnSegment s) = lastSeg s"
  by (simp add: spawnSegment_def spawnGatePair_def spawnZombies_def spawnObstacle_def
      mathRandom_def Let_def fold_spawnZombie_lastSeg)

text \<open>
  The loop of \<open>ensureSpawns\<close>; \<open>needSeg\<close> is computed once before it. The cursor
  \<open>lastSeg\<close> goes up by one each round.
\<close>

function ensureSpawnsLoop :: "int \<Rightarrow> State \<Rightarrow> State" where
  "ensureSpawnsLoop needSeg s =
     (if lastSeg s < needSeg
      then ensureSpawnsLoop needSeg (spawnSegment (s\<lparr>lastSeg := lastSeg s + 1\<rparr>))
      else s)"
  by pat_completeness auto
termination
  by (relation "measure (\<lambda>(needSeg, s). nat (needSeg - lastSeg s))") simp_all

declare ensureSpawnsLoop.simps [simp del]

definition ensureSpawns :: "State \<Rightarrow> State" where
  "ensureSpawns s =
     (let segLen = 240;
          needSeg = \<lfloor>(dist s + 1400) / segLen\<rfloor>
      in ensureSpawnsLoop needSeg s)"

definition spawnFloater :: "string \<Rightarrow> real \<Rightarrow> real \<Rightarrow> State \<Rightarrow> State" where
  "spawnFloater txt px py s =
     s\<lparr>floaters := floaters s @
          [\<lparr>f_text = txt, f_x = px, f_y = py, f_vy = - 30, f_life = 0.9\<rparr>]\<rparr>"

subsection \<open>Firing (lines 320-343)\<close>

definition shootAtNearest :: "real \<Rightarrow> State \<Rightarrow> State" where
  "shootAtNearest dt s =
     (let s1 = s\<lparr>shootCooldown := shootCooldown s - dt\<rparr>
      in if shootCooldown s1 > 0 then s1
         else
           let segments = getPlayerSegmentPositions (player s1) (getPlayerCount (scoreValue s1));
               bulletDamage = 5 + attackBonus s1;
               fired = map (\<lambda>segment.
                          \<lparr>x = segment + of_int PLAYER_SEGMENT_WIDTH / 2 - 3,
                           y = y (player s1) - 10, w = 6, h = 10,
                           vx = 0, vy = - 520, life = 1.1, dmg = bulletDamage\<rparr>) segments
           in s1\<lparr>bullets := bullets s1 @ fired, shootCooldown := 0.08\<rparr>)"

subsection \<open>Pointer input (lines 351-363)\<close>

text \<open>The argument is the logical x that \<open>toLogicalX\<close> computed from the event.\<close>

definition onPointerDown :: "real \<Rightarrow> State \<Rightarrow> State" where
  "onPointerDown lx s = s\<lparr>pointerDown := True, targetX := lx\<rparr>"

definition onPointerMove :: "real \<Rightarrow> State \<Rightarrow> State" where
  "onPointerMove lx s = (if \<not> pointerDown s then s else s\<lparr>targetX := lx\<rparr>)"

definition onPointerUp :: "State \<Rightarrow> State" where
  "onPointerUp s = s\<lparr>pointerDown := False\<rparr>"

subsection \<open>The simulation step (lines 374-554)\<close>

text \<open>
  A \<open>for (const e of list)\<close> loop that changes the element in place and the rest of the
  state: the body maps an element and a state to the new element and the new state.
\<close>

fun forEach :: "('a \<Rightarrow> 's \<Rightarrow> 'a \<times> 's) \<Rightarrow> 'a list \<Rightarrow> 's \<Rightarrow> 'a list \<times> 's" where
  "forEach body [] s = ([], s)"
| "forEach body (e # es) s =
     (let (e', s1) = body e s;
          (es', s2) = forEach body es s1
      in (e' # es', s2))"

text \<open>Lines 377-381: the crowd width follows the score, the centre stays.\<close>

definition resizePlayer :: "State \<Rightarrow> State" where
  "resizePlayer s =
     (let playerCount = getPlayerCount (scoreValue s);
          crowdWidth = real_of_int (max MIN_PLAYER_WIDTH (getCrowdWidth playerCount));
          playerCenterX = x (player s) + w (player s) / 2
      in s\<lparr>player := (player s)\<lparr>w := crowdWidth, x := playerCenterX - crowdWidth / 2\<rparr>\<rparr>)"

text \<open>Lines 383-384.\<close>

definition advanceClock :: "real \<Rightarrow> State \<Rightarrow> State" where
  "advanceClock dt s = s\<lparr>time := time s + dt, dist := dist s + speed s * dt\<rparr>"

text \<open>Lines 386-391.\<close>

definition glidePlayer :: "State \<Rightarrow> State" where
  "glidePlayer s =
     (let desired = clamp (targetX s - w (player s) / 2) 18 (LOGICAL_W - w (player s) - 18)
      in s\<lparr>player := (player s)\<lparr>x := lerp (x (player s)) desired 0.18\<rparr>\<rparr>)"

text \<open>Lines 394-402: everything scrolls down by \<open>dy\<close>; a boss at the bottom ends the run.\<close>

definition scrollY :: "real \<Rightarrow> 'a Rect_scheme \<Rightarrow> 'a Rect_scheme" where
  "scrollY dy r = r\<lparr>y := y r + dy\<rparr>"

definition scrollBoss :: "real \<Rightarrow> Enemy \<Rightarrow> State \<Rightarrow> Enemy \<times> State" where
  "scrollBoss dy boss s =
     (let boss' = boss\<lparr>y := y boss + dy\<rparr>
      in if y boss' + h boss' \<ge> LOGICAL_H \<and> alive s then (boss', s\<lparr>alive := False\<rparr>)
         else (boss', s))"

definition scrollWorld :: "real \<Rightarrow> State \<Rightarrow> State" where
  "scrollWorld dy s =
     (let s1 = s\<lparr>gates := map (scrollY dy) (gates s)\<rparr>;
          s2 = s1\<lparr>zombies := map (scrollY dy) (zombies s1)\<rparr>;
          (bs, s3) = forEach (scrollBoss dy) (bosses s2) s2;
          s4 = s3\<lparr>bosses := bs\<rparr>
      in s4\<lparr>obstacles := map (scrollY dy) (obstacles s4)\<rparr>)"

text \<open>Lines 404-415.\<close>

definition hurtPlayer :: "int \<Rightarrow> State \<Rightarrow> State" where
  "hurtPlayer amt s =
     (if \<not> alive s \<or> amt \<le> 0 then s
      else
        let before0 = scoreValue s;
            s1 = s\<lparr>scoreValue := max 0 (scoreValue s - amt)\<rparr>;
            delta = scoreValue s1 - before0;
            s2 = spawnFloater (signedText delta)
                   (x (player s1) + w (player s1) / 2) (y (player s1)) s1
        in if scoreValue s2 \<le> 0 then s2\<lparr>alive := False\<rparr> else s2)"

text \<open>Lines 417-430.\<close>

definition crossGate :: "Gate \<Rightarrow> State \<Rightarrow> Gate \<times> State" where
  "crossGate g s =
     (if used g then (g, s)
      else if aabb (player s) g then
        let g' = g\<lparr>used := True\<rparr>;
            before0 = scoreValue s;
            s1 = s\<lparr>scoreValue := applyGate (scoreValue s) (op g')\<rparr>;
            delta = scoreValue s1 - before0
        in (g', spawnFloater (signedText delta)
                  (x (player s1) + w (player s1) / 2) (y (player s1)) s1)
      else (g, s))"

definition crossGates :: "State \<Rightarrow> State" where
  "crossGates s = (let (gs, s1) = forEach crossGate (gates s) s in s1\<lparr>gates := gs\<rparr>)"

text \<open>Lines 434-438.\<close>

definition advanceBullet :: "real \<Rightarrow> Bullet \<Rightarrow> Bullet" where
  "advanceBullet dt b =
     (let b1 = b\<lparr>life := life b - dt\<rparr>;
          b2 = b1\<lparr>x := x b1 + vx b1 * dt\<rparr>
      in b2\<lparr>y := y b2 + vy b2 * dt\<rparr>)"

text \<open>
  The inner loops of lines 445-453 and 458-479 share their head: skip a target with
  \<open>hp \<le> 0\<close>, skip one the bullet does not overlap, take \<open>dmg\<close> off the first one left and
  \<open>break\<close>. The result is the list after the loop and the target that was hit, if any, as
  it is after the hit.
\<close>

fun hitFirst :: "Bullet \<Rightarrow> 'a Mortal_scheme list \<Rightarrow> 'a Mortal_scheme list \<times> 'a Mortal_scheme option"
  where
  "hitFirst b [] = ([], None)"
| "hitFirst b (e # es) =
     (if hp e \<le> 0 then (let (es', r) = hitFirst b es in (e # es', r))
      else if \<not> aabb b e then (let (es', r) = hitFirst b es in (e # es', r))
      else (let e' = e\<lparr>hp := hp e - dmg b\<rparr> in (e' # es, Some e')))"

text \<open>Lines 464-477: what follows a hit on an obstacle.\<close>

definition dropAttackItem :: "Obstacle \<Rightarrow> State \<Rightarrow> State" where
  "dropAttackItem obstacle s =
     (if hp obstacle \<le> 0 then
        let bns = max 1 (min MAX_ATTACK_BONUS (maxHp obstacle div 30))
        in spawnAttackItem (x obstacle + w obstacle / 2) (y obstacle + h obstacle) bns s
      else s)"

text \<open>Lines 441-480, the body for one bullet.\<close>

definition collideBullet :: "Bullet \<Rightarrow> State \<Rightarrow> Bullet \<times> State" where
  "collideBullet b s =
     (if life b \<le> 0 then (b, s)
      else
        case hitFirst b (zombies s) of
          (zs, Some enemy) \<Rightarrow>
            (b\<lparr>life := 0\<rparr>,
             spawnFloater (''-'' @ showInt (dmg b)) (x enemy + w enemy / 2) (y enemy)
               (s\<lparr>zombies := zs\<rparr>))
        | (zs, None) \<Rightarrow>
           (case hitFirst b (bosses s) of
              (bs, Some enemy) \<Rightarrow>
                (b\<lparr>life := 0\<rparr>,
                 spawnFloater (''-'' @ showInt (dmg b)) (x enemy + w enemy / 2) (y enemy)
                   (s\<lparr>bosses := bs\<rparr>))
            | (bs, None) \<Rightarrow>
               (case hitFirst b (obstacles s) of
                  (obs, Some obstacle) \<Rightarrow>
                    (b\<lparr>life := 0\<rparr>,
                     dropAttackItem obstacle
                       (spawnFloater (''-'' @ showInt (dmg b))
                          (x obstacle + w obstacle / 2) (y obstacle)
                          (s\<lparr>obstacles := obs\<rparr>)))
                | (obs, None) \<Rightarrow> (b, s))))"

definition collideBullets :: "State \<Rightarrow> State" where
  "collideBullets s =
     (let (bs, s1) = forEach collideBullet (bullets s) s in s1\<lparr>bullets := bs\<rparr>)"

text \<open>Lines 482-502: contact damage; only the obstacle loop stops once the player is dead.\<close>

fun obstaclesHurt :: "Obstacle list \<Rightarrow> State \<Rightarrow> State" where
  "obstaclesHurt [] s = s"
| "obstaclesHurt (obstacle # rest) s =
     (if \<not> alive s then s
      else if hp obstacle \<le> 0 then obstaclesHurt rest s
      else if aabb (player s) obstacle then obstaclesHurt rest (hurtPlayer 1 s)
      else obstaclesHurt rest s)"

fun enemiesHurt :: "Enemy list \<Rightarrow> State \<Rightarrow> State" where
  "enemiesHurt [] s = s"
| "enemiesHurt (enemy # rest) s =
     (if hp enemy \<le> 0 then enemiesHurt rest s
      else if aabb (player s) enemy then enemiesHurt rest (hurtPlayer (damage enemy) s)
      else enemiesHurt rest s)"

definition contactDamage :: "State \<Rightarrow> State" where
  "contactDamage s =
     (let s1 = obstaclesHurt (obstacles s) s;
          s2 = enemiesHurt (zombies s1) s1
      in enemiesHurt (bosses s2) s2)"

text \<open>Lines 504-519.\<close>

definition collectItem :: "real \<Rightarrow> real \<Rightarrow> Item \<Rightarrow> State \<Rightarrow> Item \<times> State" where
  "collectItem dy dt item s =
     (let item1 = item\<lparr>y := y item + dy\<rparr>;
          item2 = item1\<lparr>y := y item1 + item_vy item1 * dt\<rparr>
      in if collected item2 then (item2, s)
         else if \<not> aabb (player s) item2 then (item2, s)
         else
           let before0 = attackBonus s;
               s1 = s\<lparr>attackBonus := min MAX_ATTACK_BONUS (attackBonus s + bonus item2)\<rparr>;
               gained = attackBonus s1 - before0;
               s2 = (if gained > 0
                     then spawnFloater (''ATTACK +'' @ showInt gained)
                            (x item2 + w item2 / 2) (y item2) s1
                     else s1)
           in (item2\<lparr>collected := True\<rparr>, s2))"

definition collectItems :: "real \<Rightarrow> real \<Rightarrow> State \<Rightarrow> State" where
  "collectItems dy dt s =
     (let (its, s1) = forEach (collectItem dy dt) (items s) s in s1\<lparr>items := its\<rparr>)"

text \<open>Lines 521-524.\<close>

definition advanceFloater :: "real \<Rightarrow> Floater \<Rightarrow> Floater" where
  "advanceFloater dt f =
     (let f1 = f\<lparr>f_life := f_life f - dt\<rparr> in f1\<lparr>f_y := f_y f1 + f_vy f1 * dt\<rparr>)"

text \<open>Lines 526-540.\<close>

definition prune :: "State \<Rightarrow> State" where
  "prune s =
     s\<lparr>gates := filter (\<lambda>g. y g < LOGICAL_H + 100 \<and> \<not> used g) (gates s),
       zombies := filter (\<lambda>z. y z < LOGICAL_H + 100 \<and> hp z > 0) (zombies s),
       bosses := filter (\<lambda>boss. y boss < LOGICAL_H + 200 \<and> hp boss > 0) (bosses s),
       obstacles := filter (\<lambda>obs. y obs < LOGICAL_H + 200 \<and> hp obs > 0) (obstacles s),
       items := filter (\<lambda>item. y item < LOGICAL_H + 80 \<and> \<not> collected item) (items s),
       bullets := filter (\<lambda>b. life b > 0 \<and> y b > - 50) (bullets s),
       floaters := filter (\<lambda>f. f_life f > 0) (floaters s)\<rparr>"

text \<open>Lines 545-553.\<close>

definition publishHud :: "real \<Rightarrow> State \<Rightarrow> State" where
  "publishHud dt s =
     (let s1 = s\<lparr>hudAccum := hudAccum s + dt\<rparr>
      in if hudAccum s1 \<ge> 0.1
         then s1\<lparr>hudAccum := 0,
                 hud := \<lparr>hud_value = scoreValue s1, hud_dist = \<lfloor>dist s1\<rfloor>,
                         hud_alive = alive s1\<rparr>\<rparr>
         else s1)"

text \<open>Lines 377-524: everything \<open>update\<close> does between its guard and the pruning.\<close>

definition moveAndResolve :: "real \<Rightarrow> State \<Rightarrow> State" where
  "moveAndResolve dt s =
     (let s1 = resizePlayer s;
          s2 = advanceClock dt s1;
          s3 = glidePlayer s2;
          dy = speed s3 * dt;
          s4 = scrollWorld dy s3;
          s5 = crossGates s4;
          s6 = shootAtNearest dt s5;
          s7 = s6\<lparr>bullets := map (advanceBullet dt) (bullets s6)\<rparr>;
          s8 = collideBullets s7;
          s9 = contactDamage s8;
          s10 = collectItems dy dt s9
      in s10\<lparr>floaters := map (advanceFloater dt) (floaters s10)\<rparr>)"

definition update :: "real \<Rightarrow> State \<Rightarrow> State" where
  "update dt s =
     (if \<not> alive s then s
      else publishHud dt (ensureBossSpawn (ensureSpawns (prune (moveAndResolve dt s)))))"

subsection \<open>Start of a run (lines 149-178, 700-703)\<close>

definition initialState :: "(nat \<Rightarrow> real) \<Rightarrow> State" where
  "initialState r =
     \<lparr>time = 0, dist = 0, speed = 180, scoreValue = 1, alive = True,
      targetX = LOGICAL_W / 2, pointerDown = False,
      gates = [], zombies = [], bosses = [], obstacles = [], items = [], bullets = [],
      floaters = [], shootCooldown = 0, lastSeg = - 1, nextBossDist = BOSS_INTERVAL,
      attackBonus = 0,
      player = \<lparr>x = LOGICAL_W / 2 - 16, y = LOGICAL_H - 120, w = 32, h = 40\<rparr>,
      hudAccum = 0, hud = \<lparr>hud_value = 1, hud_dist = 0, hud_alive = True\<rparr>,
      rnd = r, rndPos = 0\<rparr>"

text \<open>
  The states a run can be in: \<open>ensureSpawns\<close> runs once on the initial state, then frames
  (\<open>update\<close> with any elapsed time) and pointer events interleave.
\<close>

inductive reachable :: "State \<Rightarrow> bool" where
  start: "reachable (ensureSpawns (initialState r))"
| frame: "reachable s \<Longrightarrow> reachable (update dt s)"
| pointer_down: "reachable s \<Longrightarrow> reachable (onPointerDown lx s)"
| pointer_move: "reachable s \<Longrightarrow> reachable (onPointerMove lx s)"
| pointer_up: "reachable s \<Longrightarrow> reachable (onPointerUp s)"

subsection \<open>Notions used to state the properties\<close>

text \<open>
  The item the specification promises for a destroyed obstacle: centred under the
  obstacle's bottom edge, bonus \<open>clamp(floor(maxHp / 30), 1, 6)\<close>, falling at 140 per second.
  It is compared below with what \<open>spawnAttackItem\<close> builds.
\<close>

definition expectedAttackItem :: "Obstacle \<Rightarrow> Item" where
  "expectedAttackItem ob =
     \<lparr>x = x ob + w ob / 2 - 11, y = y ob + h ob, w = 22, h = 22, item_vy = 140,
      bonus = max 1 (min 6 (maxHp ob div 30)), collected = False\<rparr>"

text \<open>
  The obstacles that a phase took from \<open>hp > 0\<close> to \<open>hp \<le> 0\<close>, given the obstacle list
  before and after it (same length, same order).
\<close>

definition destroyed :: "Obstacle list \<Rightarrow> Obstacle list \<Rightarrow> Obstacle list" where
  "destroyed before after =
     map fst (filter (\<lambda>(ob, ob'). 0 < hp ob \<and> hp ob' \<le> 0) (zip before after))"

text \<open>An obstacle is the same but for its hit points, and was left alone if it was dead.\<close>

definition hitOnly :: "Obstacle \<Rightarrow> Obstacle \<Rightarrow> bool" where
  "hitOnly ob ob' \<longleftrightarrow>
     x ob' = x ob \<and> y ob' = y ob \<and> w ob' = w ob \<and> h ob' = h ob \<and> maxHp ob' = maxHp ob
     \<and> (hp ob \<le> 0 \<longrightarrow> hp ob' = hp ob)"

text \<open>The attack bonus and the bonus of every item on the lane are within the cap.\<close>

definition attackInvariant :: "State \<Rightarrow> bool" where
  "attackInvariant s \<longleftrightarrow>
     0 \<le> attackBonus s \<and> attackBonus s \<le> MAX_ATTACK_BONUS
     \<and> list_all (\<lambda>item. 1 \<le> bonus item \<and> bonus item \<le> MAX_ATTACK_BONUS) (items s)"

text \<open>The rectangle of an entity, the place of a floater.\<close>

definition rectOf :: "'a Rect_scheme \<Rightarrow> Rect" where
  "rectOf r = \<lparr>x = x r, y = y r, w = w r, h = h r\<rparr>"

definition floaterPos :: "Floater \<Rightarrow> real \<times> real" where
  "floaterPos f = (f_x f, f_y f)"

text \<open>
  Between two states the clock and the distance stand still and nothing on the lane has
  moved: gates, zombies, bosses and obstacles have the same rectangles in the same order;
  items, bullets and floaters too, possibly followed by new ones.
\<close>

definition unmoved :: "State \<Rightarrow> State \<Rightarrow> bool" where
  "unmoved s s' \<longleftrightarrow>
     time s' = time s \<and> dist s' = dist s
     \<and> map rectOf (gates s') = map rectOf (gates s)
     \<and> map rectOf (zombies s') = map rectOf (zombies s)
     \<and> map rectOf (bosses s') = map rectOf (bosses s)
     \<and> map rectOf (obstacles s') = map rectOf (obstacles s)
     \<and> prefix (map rectOf (items s)) (map rectOf (items s'))
     \<and> prefix (map rectOf (bullets s)) (map rectOf (bullets s'))
     \<and> prefix (map floaterPos (floaters s)) (map floaterPos (floaters s'))"

subsection \<open>Sample states\<close>

text \<open>
  A run at distance 1999 with nothing on the lane and the spawn cursor far ahead; one
  frame of \<open>3001 / 180\<close> seconds takes it to distance 5000.
\<close>

definition bossJumpState :: State where
  "bossJumpState = (initialState (\<lambda>_. 0))\<lparr>dist := 1999, lastSeg := 100\<rparr>"

text \<open>
  A volley: one bullet over two overlapping zombies, two bullets over one obstacle that a
  single hit destroys.
\<close>

definition sampleBullet :: "real \<Rightarrow> Bullet" where
  "sampleBullet bx = \<lparr>x = bx, y = 110, w = 6, h = 10, vx = 0, vy = - 520, life = 1, dmg = 5\<rparr>"

definition volleyState :: State where
  "volleyState = (initialState (\<lambda>_. 0))
     \<lparr>lastSeg := 100,
      zombies := [\<lparr>x = 100, y = 100, w = 36, h = 36, hp = 12, damage = 3\<rparr>,
                  \<lparr>x = 110, y = 100, w = 36, h = 36, hp = 12, damage = 3\<rparr>],
      obstacles := [\<lparr>x = 200, y = 100, w = 56, h = 56, hp = 5, maxHp = 32\<rparr>],
      bullets := [sampleBullet 115, sampleBullet 210, sampleBullet 220]\<rparr>"



text \<open>
  The start of a run, the player on the left, the first gate (\<open>-5\<close>, as \<open>spawnGatePair\<close>
  places it at \<open>x = 25\<close>) three units above the player's top edge.
\<close>

definition gateTrapState :: State where
  "gateTrapState = (initialState (\<lambda>_. 0))
     \<lparr>lastSeg := 100, targetX := 116,
      gates := [makeGate 25 500 130 44 \<lparr>type = Sub, amount = 5\<rparr>],
      player := \<lparr>x = 100, y = 520, w = 32, h = 40\<rparr>\<rparr>"

text \<open>The same with a \<open>+5\<close> gate and a boss two units above the bottom of the lane.\<close>

definition bossGateState :: State where
  "bossGateState = (initialState (\<lambda>_. 0))
     \<lparr>lastSeg := 100, targetX := 116,
      gates := [makeGate 25 500 130 44 \<lparr>type = Add, amount = 5\<rparr>],
      bosses := [\<lparr>x = 200, y = 548, w = 90, h = 90, hp = 200, damage = 12\<rparr>],
      player := \<lparr>x = 100, y = 520, w = 32, h = 40\<rparr>\<rparr>"


section \<open>Properties\<close>

subsection \<open>Loops and frame conditions\<close>

text \<open>Which fields of the state each phase of \<open>update\<close> leaves alone.\<close>

lemma forEach_Nil_fst [simp]: "fst (forEach body [] s) = []" by simp
lemma forEach_Nil_snd [simp]: "snd (forEach body [] s) = s" by simp
lemma forEach_Cons_fst [simp]:
  "fst (forEach body (e # es) s) = fst (body e s) # fst (forEach body es (snd (body e s)))"
  by (simp add: split_def Let_def)
lemma forEach_Cons_snd [simp]:
  "snd (forEach body (e # es) s) = snd (forEach body es (snd (body e s)))"
  by (simp add: split_def Let_def)

declare forEach.simps [simp del]

lemma forEach_length [simp]: "length (fst (forEach body es s)) = length es"
  by (induction es arbitrary: s) simp_all

lemma forEach_rel:
  assumes "\<And>t. R t t" and "\<And>a b c. R a b \<Longrightarrow> R b c \<Longrightarrow> R a c"
    and "\<And>e t. R t (snd (body e t))"
  shows "R s (snd (forEach body es s))"
proof (induction es arbitrary: s)
  case Nil
  show ?case by (simp add: assms(1))
next
  case (Cons e es)
  have "R s (snd (body e s))" by (rule assms(3))
  moreover have "R (snd (body e s)) (snd (forEach body es (snd (body e s))))" by (rule Cons.IH)
  ultimately show ?case by (simp add: assms(2))
qed

lemma forEach_inv:
  assumes "\<And>e t. P t \<Longrightarrow> P (snd (body e t))" and "P s"
  shows "P (snd (forEach body es s))"
  using assms(2) by (induction es arbitrary: s) (simp_all add: assms(1))

lemma spawnFloater_fields [simp]:
  "time (spawnFloater txt px py s) = time s"
  "dist (spawnFloater txt px py s) = dist s"
  "speed (spawnFloater txt px py s) = speed s"
  "scoreValue (spawnFloater txt px py s) = scoreValue s"
  "alive (spawnFloater txt px py s) = alive s"
  "targetX (spawnFloater txt px py s) = targetX s"
  "pointerDown (spawnFloater txt px py s) = pointerDown s"
  "gates (spawnFloater txt px py s) = gates s"
  "zombies (spawnFloater txt px py s) = zombies s"
  "bosses (spawnFloater txt px py s) = bosses s"
  "obstacles (spawnFloater txt px py s) = obstacles s"
  "items (spawnFloater txt px py s) = items s"
  "bullets (spawnFloater txt px py s) = bullets s"
  "shootCooldown (spawnFloater txt px py s) = shootCooldown s"
  "lastSeg (spawnFloater txt px py s) = lastSeg s"
  "nextBossDist (spawnFloater txt px py s) = nextBossDist s"
  "attackBonus (spawnFloater txt px py s) = attackBonus s"
  "player (spawnFloater txt px py s) = player s"
  "hudAccum (spawnFloater txt px py s) = hudAccum s"
  "hud (spawnFloater txt px py s) = hud s"
  "rnd (spawnFloater txt px py s) = rnd s"
  "rndPos (spawnFloater txt px py s) = rndPos s"
  by (simp_all add: spawnFloater_def)

lemma spawnAttackItem_fields [simp]:
  "time (spawnAttackItem cx ty bns s) = time s"
  "dist (spawnAttackItem cx ty bns s) = dist s"
  "speed (spawnAttackItem cx ty bns s) = speed s"
  "scoreValue (spawnAttackItem cx ty bns s) = scoreValue s"
  "alive (spawnAttackItem cx ty bns s) = alive s"
  "targetX (spawnAttackItem cx ty bns s) = targetX s"
  "pointerDown (spawnAttackItem cx ty bns s) = pointerDown s"
  "gates (spawnAttackItem cx ty bns s) = gates s"
  "zombies (spawnAttackItem cx ty bns s) = zombies s"
  "bosses (spawnAttackItem cx ty bns s) = bosses s"
  "obstacles (spawnAttackItem cx ty bns s) = obstacles s"
  "bullets (spawnAttackItem cx ty bns s) = bullets s"
  "floaters (spawnAttackItem cx ty bns s) = floaters s"
  "shootCooldown (spawnAttackItem cx ty bns s) = shootCooldown s"
  "lastSeg (spawnAttackItem cx ty bns s) = lastSeg s"
  "nextBossDist (spawnAttackItem cx ty bns s) = nextBossDist s"
  "attackBonus (spawnAttackItem cx ty bns s) = attackBonus s"
  "player (spawnAttackItem cx ty bns s) = player s"
  "hudAccum (spawnAttackItem cx ty bns s) = hudAccum s"
  "hud (spawnAttackItem cx ty bns s) = hud s"
  "rnd (spawnAttackItem cx ty bns s) = rnd s"
  "rndPos (spawnAttackItem cx ty bns s) = rndPos s"
  by (simp_all add: spawnAttackItem_def)

lemma resizePlayer_fields [simp]:
  "time (resizePlayer s) = time s"
  "dist (resizePlayer s) = dist s"
  "speed (resizePlayer s) = speed s"
  "scoreValue (resizePlayer s) = scoreValue s"
  "alive (resizePlayer s) = alive s"
  "targetX (resizePlayer s) = targetX s"
  "pointerDown (resizePlayer s) = pointerDown s"
  "gates (resizePlayer s) = gates s"
  "zombies (resizePlayer s) = zombies s"
  "bosses (resizePlayer s) = bosses s"
  "obstacles (resizePlayer s) = obstacles s"
  "items (resizePlayer s) = items s"
  "bullets (resizePlayer s) = bullets s"
  "floaters (resizePlayer s) = floaters s"
  "shootCooldown (resizePlayer s) = shootCooldown s"
  "lastSeg (resizePlayer s) = lastSeg s"
  "nextBossDist (resizePlayer s) = nextBossDist s"
  "attackBonus (resizePlayer s) = attackBonus s"
  "hudAccum (resizePlayer s) = hudAccum s"
  "hud (resizePlayer s) = hud s"
  "rnd (resizePlayer s) = rnd s"
  "rndPos (resizePlayer s) = rndPos s"
  by (simp_all add: resizePlayer_def Let_def)

lemma advanceClock_fields [simp]:
  "speed (advanceClock dt s) = speed s"
  "scoreValue (advanceClock dt s) = scoreValue s"
  "alive (advanceClock dt s) = alive s"
  "targetX (advanceClock dt s) = targetX s"
  "pointerDown (advanceClock dt s) = pointerDown s"
  "gates (advanceClock dt s) = gates s"
  "zombies (advanceClock dt s) = zombies s"
  "bosses (advanceClock dt s) = bosses s"
  "obstacles (advanceClock dt s) = obstacles s"
  "items (advanceClock dt s) = items s"
  "bullets (advanceClock dt s) = bullets s"
  "floaters (advanceClock dt s) = floaters s"
  "shootCooldown (advanceClock dt s) = shootCooldown s"
  "lastSeg (advanceClock dt s) = lastSeg s"
  "nextBossDist (advanceClock dt s) = nextBossDist s"
  "attackBonus (advanceClock dt s) = attackBonus s"
  "player (advanceClock dt s) = player s"
  "hudAccum (advanceClock dt s) = hudAccum s"
  "hud (advanceClock dt s) = hud s"
  "rnd (advanceClock dt s) = rnd s"
  "rndPos (advanceClock dt s) = rndPos s"
  by (simp_all add: advanceClock_def)

lemma glidePlayer_fields [simp]:
  "time (glidePlayer s) = time s"
  "dist (glidePlayer s) = dist s"
  "speed (glidePlayer s) = speed s"
  "scoreValue (glidePlayer s) = scoreValue s"
  "alive (glidePlayer s) = alive s"
  "targetX (glidePlayer s) = targetX s"
  "pointerDown (glidePlayer s) = pointerDown s"
  "gates (glidePlayer s) = gates s"
  "zombies (glidePlayer s) = zombies s"
  "bosses (glidePlayer s) = bosses s"
  "obstacles (glidePlayer s) = obstacles s"
  "items (glidePlayer s) = items s"
  "bullets (glidePlayer s) = bullets s"
  "floaters (glidePlayer s) = floaters s"
  "shootCooldown (glidePlayer s) = shootCooldown s"
  "lastSeg (glidePlayer s) = lastSeg s"
  "nextBossDist (glidePlayer s) = nextBossDist s"
  "attackBonus (glidePlayer s) = attackBonus s"
  "hudAccum (glidePlayer s) = hudAccum s"
  "hud (glidePlayer s) = hud s"
  "rnd (glidePlayer s) = rnd s"
  "rndPos (glidePlayer s) = rndPos s"
  by (simp_all add: glidePlayer_def Let_def)

lemma scrollWorld_fields [simp]:
  shows "time (scrollWorld dy s) = time s"
    and "dist (scrollWorld dy s) = dist s"
    and "speed (scrollWorld dy s) = speed s"
    and "scoreValue (scrollWorld dy s) = scoreValue s"
    and "targetX (scrollWorld dy s) = targetX s"
    and "pointerDown (scrollWorld dy s) = pointerDown s"
    and "items (scrollWorld dy s) = items s"
    and "bullets (scrollWorld dy s) = bullets s"
    and "floaters (scrollWorld dy s) = floaters s"
    and "shootCooldown (scrollWorld dy s) = shootCooldown s"
    and "lastSeg (scrollWorld dy s) = lastSeg s"
    and "nextBossDist (scrollWorld dy s) = nextBossDist s"
    and "attackBonus (scrollWorld dy s) = attackBonus s"
    and "player (scrollWorld dy s) = player s"
    and "hudAccum (scrollWorld dy s) = hudAccum s"
    and "hud (scrollWorld dy s) = hud s"
    and "rnd (scrollWorld dy s) = rnd s"
    and "rndPos (scrollWorld dy s) = rndPos s"
proof -
  let ?R = "\<lambda>t t'. time t' = time t \<and> dist t' = dist t \<and> speed t' = speed t \<and> scoreValue t' = scoreValue t \<and> targetX t' = targetX t \<and> pointerDown t' = pointerDown t \<and> items t' = items t \<and> bullets t' = bullets t \<and> floaters t' = floaters t \<and> shootCooldown t' = shootCooldown t \<and> lastSeg t' = lastSeg t \<and> nextBossDist t' = nextBossDist t \<and> attackBonus t' = attackBonus t \<and> player t' = player t \<and> hudAccum t' = hudAccum t \<and> hud t' = hud t \<and> rnd t' = rnd t \<and> rndPos t' = rndPos t"
  have "?R (s\<lparr>gates := map (scrollY dy) (gates s), zombies := map (scrollY dy) (zombies s)\<rparr>) (snd (forEach (scrollBoss dy) (bosses s) (s\<lparr>gates := map (scrollY dy) (gates s), zombies := map (scrollY dy) (zombies s)\<rparr>)))"
    by (rule forEach_rel [where R = ?R]) (simp_all add: scrollBoss_def Let_def)
  then show "time (scrollWorld dy s) = time s"
    and "dist (scrollWorld dy s) = dist s"
    and "speed (scrollWorld dy s) = speed s"
    and "scoreValue (scrollWorld dy s) = scoreValue s"
    and "targetX (scrollWorld dy s) = targetX s"
    and "pointerDown (scrollWorld dy s) = pointerDown s"
    and "items (scrollWorld dy s) = items s"
    and "bullets (scrollWorld dy s) = bullets s"
    and "floaters (scrollWorld dy s) = floaters s"
    and "shootCooldown (scrollWorld dy s) = shootCooldown s"
    and "lastSeg (scrollWorld dy s) = lastSeg s"
    and "nextBossDist (scrollWorld dy s) = nextBossDist s"
    and "attackBonus (scrollWorld dy s) = attackBonus s"
    and "player (scrollWorld dy s) = player s"
    and "hudAccum (scrollWorld dy s) = hudAccum s"
    and "hud (scrollWorld dy s) = hud s"
    and "rnd (scrollWorld dy s) = rnd s"
    and "rndPos (scrollWorld dy s) = rndPos s"
    by (simp_all add: scrollWorld_def Let_def split_def Let_def)
qed

lemma crossGates_fields [simp]:
  shows "time (crossGates s) = time s"
    and "dist (crossGates s) = dist s"
    and "speed (crossGates s) = speed s"
    and "alive (crossGates s) = alive s"
    and "targetX (crossGates s) = targetX s"
    and "pointerDown (crossGates s) = pointerDown s"
    and "zombies (crossGates s) = zombies s"
    and "bosses (crossGates s) = bosses s"
    and "obstacles (crossGates s) = obstacles s"
    and "items (crossGates s) = items s"
    and "bullets (crossGates s) = bullets s"
    and "shootCooldown (crossGates s) = shootCooldown s"
    and "lastSeg (crossGates s) = lastSeg s"
    and "nextBossDist (crossGates s) = nextBossDist s"
    and "attackBonus (crossGates s) = attackBonus s"
    and "player (crossGates s) = player s"
    and "hudAccum (crossGates s) = hudAccum s"
    and "hud (crossGates s) = hud s"
    and "rnd (crossGates s) = rnd s"
    and "rndPos (crossGates s) = rndPos s"
proof -
  let ?R = "\<lambda>t t'. time t' = time t \<and> dist t' = dist t \<and> speed t' = speed t \<and> alive t' = alive t \<and> targetX t' = targetX t \<and> pointerDown t' = pointerDown t \<and> zombies t' = zombies t \<and> bosses t' = bosses t \<and> obstacles t' = obstacles t \<and> items t' = items t \<and> bullets t' = bullets t \<and> shootCooldown t' = shootCooldown t \<and> lastSeg t' = lastSeg t \<and> nextBossDist t' = nextBossDist t \<and> attackBonus t' = attackBonus t \<and> player t' = player t \<and> hudAccum t' = hudAccum t \<and> hud t' = hud t \<and> rnd t' = rnd t \<and> rndPos t' = rndPos t"
  have "?R (s) (snd (forEach (crossGate) (gates s) (s)))"
    by (rule forEach_rel [where R = ?R]) (simp_all add: crossGate_def Let_def)
  then show "time (crossGates s) = time s"
    and "dist (crossGates s) = dist s"
    and "speed (crossGates s) = speed s"
    and "alive (crossGates s) = alive s"
    and "targetX (crossGates s) = targetX s"
    and "pointerDown (crossGates s) = pointerDown s"
    and "zombies (crossGates s) = zombies s"
    and "bosses (crossGates s) = bosses s"
    and "obstacles (crossGates s) = obstacles s"
    and "items (crossGates s) = items s"
    and "bullets (crossGates s) = bullets s"
    and "shootCooldown (crossGates s) = shootCooldown s"
    and "lastSeg (crossGates s) = lastSeg s"
    and "nextBossDist (crossGates s) = nextBossDist s"
    and "attackBonus (crossGates s) = attackBonus s"
    and "player (crossGates s) = player s"
    and "hudAccum (crossGates s) = hudAccum s"
    and "hud (crossGates s) = hud s"
    and "rnd (crossGates s) = rnd s"
    and "rndPos (crossGates s) = rndPos s"
    by (simp_all add: crossGates_def split_def Let_def)
qed

lemma shootAtNearest_fields [simp]:
  "time (shootAtNearest dt s) = time s"
  "dist (shootAtNearest dt s) = dist s"
  "speed (shootAtNearest dt s) = speed s"
  "scoreValue (shootAtNearest dt s) = scoreValue s"
  "alive (shootAtNearest dt s) = alive s"
  "targetX (shootAtNearest dt s) = targetX s"
  "pointerDown (shootAtNearest dt s) = pointerDown s"
  "gates (shootAtNearest dt s) = gates s"
  "zombies (shootAtNearest dt s) = zombies s"
  "bosses (shootAtNearest dt s) = bosses s"
  "obstacles (shootAtNearest dt s) = obstacles s"
  "items (shootAtNearest dt s) = items s"
  "floaters (shootAtNearest dt s) = floaters s"
  "lastSeg (shootAtNearest dt s) = lastSeg s"
  "nextBossDist (shootAtNearest dt s) = nextBossDist s"
  "attackBonus (shootAtNearest dt s) = attackBonus s"
  "player (shootAtNearest dt s) = player s"
  "hudAccum (shootAtNearest dt s) = hudAccum s"
  "hud (shootAtNearest dt s) = hud s"
  "rnd (shootAtNearest dt s) = rnd s"
  "rndPos (shootAtNearest dt s) = rndPos s"
  by (simp_all add: shootAtNearest_def Let_def)

lemma dropAttackItem_fields [simp]:
  "time (dropAttackItem ob s) = time s"
  "dist (dropAttackItem ob s) = dist s"
  "speed (dropAttackItem ob s) = speed s"
  "scoreValue (dropAttackItem ob s) = scoreValue s"
  "alive (dropAttackItem ob s) = alive s"
  "targetX (dropAttackItem ob s) = targetX s"
  "pointerDown (dropAttackItem ob s) = pointerDown s"
  "gates (dropAttackItem ob s) = gates s"
  "zombies (dropAttackItem ob s) = zombies s"
  "bosses (dropAttackItem ob s) = bosses s"
  "obstacles (dropAttackItem ob s) = obstacles s"
  "bullets (dropAttackItem ob s) = bullets s"
  "floaters (dropAttackItem ob s) = floaters s"
  "shootCooldown (dropAttackItem ob s) = shootCooldown s"
  "lastSeg (dropAttackItem ob s) = lastSeg s"
  "nextBossDist (dropAttackItem ob s) = nextBossDist s"
  "attackBonus (dropAttackItem ob s) = attackBonus s"
  "player (dropAttackItem ob s) = player s"
  "hudAccum (dropAttackItem ob s) = hudAccum s"
  "hud (dropAttackItem ob s) = hud s"
  "rnd (dropAttackItem ob s) = rnd s"
  "rndPos (dropAttackItem ob s) = rndPos s"
  by (simp_all add: dropAttackItem_def Let_def)

lemma collideBullets_fields [simp]:
  shows "time (collideBullets s) = time s"
    and "dist (collideBullets s) = dist s"
    and "speed (collideBullets s) = speed s"
    and "scoreValue (collideBullets s) = scoreValue s"
    and "alive (collideBullets s) = alive s"
    and "targetX (collideBullets s) = targetX s"
    and "pointerDown (collideBullets s) = pointerDown s"
    and "gates (collideBullets s) = gates s"
    and "shootCooldown (collideBullets s) = shootCooldown s"
    and "lastSeg (collideBullets s) = lastSeg s"
    and "nextBossDist (collideBullets s) = nextBossDist s"
    and "attackBonus (collideBullets s) = attackBonus s"
    and "player (collideBullets s) = player s"
    and "hudAccum (collideBullets s) = hudAccum s"
    and "hud (collideBullets s) = hud s"
    and "rnd (collideBullets s) = rnd s"
    and "rndPos (collideBullets s) = rndPos s"
proof -
  let ?R = "\<lambda>t t'. time t' = time t \<and> dist t' = dist t \<and> speed t' = speed t \<and> scoreValue t' = scoreValue t \<and> alive t' = alive t \<and> targetX t' = targetX t \<and> pointerDown t' = pointerDown t \<and> gates t' = gates t \<and> shootCooldown t' = shootCooldown t \<and> lastSeg t' = lastSeg t \<and> nextBossDist t' = nextBossDist t \<and> attackBonus t' = attackBonus t \<and> player t' = player t \<and> hudAccum t' = hudAccum t \<and> hud t' = hud t \<and> rnd t' = rnd t \<and> rndPos t' = rndPos t"
  have "?R (s) (snd (forEach (collideBullet) (bullets s) (s)))"
    by (rule forEach_rel [where R = ?R]) (simp_all add: collideBullet_def split: prod.splits option.splits)
  then show "time (collideBullets s) = time s"
    and "dist (collideBullets s) = dist s"
    and "speed (collideBullets s) = speed s"
    and "scoreValue (collideBullets s) = scoreValue s"
    and "alive (collideBullets s) = alive s"
    and "targetX (collideBullets s) = targetX s"
    and "pointerDown (collideBullets s) = pointerDown s"
    and "gates (collideBullets s) = gates s"
    and "shootCooldown (collideBullets s) = shootCooldown s"
    and "lastSeg (collideBullets s) = lastSeg s"
    and "nextBossDist (collideBullets s) = nextBossDist s"
    and "attackBonus (collideBullets s) = attackBonus s"
    and "player (collideBullets s) = player s"
    and "hudAccum (collideBullets s) = hudAccum s"
    and "hud (collideBullets s) = hud s"
    and "rnd (collideBullets s) = rnd s"
    and "rndPos (collideBullets s) = rndPos s"
    by (simp_all add: collideBullets_def split_def Let_def)
qed

lemma hurtPlayer_fields [simp]:
  "time (hurtPlayer amt s) = time s"
  "dist (hurtPlayer amt s) = dist s"
  "speed (hurtPlayer amt s) = speed s"
  "targetX (hurtPlayer amt s) = targetX s"
  "pointerDown (hurtPlayer amt s) = pointerDown s"
  "gates (hurtPlayer amt s) = gates s"
  "zombies (hurtPlayer amt s) = zombies s"
  "bosses (hurtPlayer amt s) = bosses s"
  "obstacles (hurtPlayer amt s) = obstacles s"
  "items (hurtPlayer amt s) = items s"
  "bullets (hurtPlayer amt s) = bullets s"
  "shootCooldown (hurtPlayer amt s) = shootCooldown s"
  "lastSeg (hurtPlayer amt s) = lastSeg s"
  "nextBossDist (hurtPlayer amt s) = nextBossDist s"
  "attackBonus (hurtPlayer amt s) = attackBonus s"
  "player (hurtPlayer amt s) = player s"
  "hudAccum (hurtPlayer amt s) = hudAccum s"
  "hud (hurtPlayer amt s) = hud s"
  "rnd (hurtPlayer amt s) = rnd s"
  "rndPos (hurtPlayer amt s) = rndPos s"
  by (simp_all add: hurtPlayer_def Let_def)

lemma obstaclesHurt_fields [simp]:
  "time (obstaclesHurt obs s) = time s"
  "dist (obstaclesHurt obs s) = dist s"
  "speed (obstaclesHurt obs s) = speed s"
  "targetX (obstaclesHurt obs s) = targetX s"
  "pointerDown (obstaclesHurt obs s) = pointerDown s"
  "gates (obstaclesHurt obs s) = gates s"
  "zombies (obstaclesHurt obs s) = zombies s"
  "bosses (obstaclesHurt obs s) = bosses s"
  "obstacles (obstaclesHurt obs s) = obstacles s"
  "items (obstaclesHurt obs s) = items s"
  "bullets (obstaclesHurt obs s) = bullets s"
  "shootCooldown (obstaclesHurt obs s) = shootCooldown s"
  "lastSeg (obstaclesHurt obs s) = lastSeg s"
  "nextBossDist (obstaclesHurt obs s) = nextBossDist s"
  "attackBonus (obstaclesHurt obs s) = attackBonus s"
  "player (obstaclesHurt obs s) = player s"
  "hudAccum (obstaclesHurt obs s) = hudAccum s"
  "hud (obstaclesHurt obs s) = hud s"
  "rnd (obstaclesHurt obs s) = rnd s"
  "rndPos (obstaclesHurt obs s) = rndPos s"
  by (induction obs s rule: obstaclesHurt.induct; simp)+

lemma enemiesHurt_fields [simp]:
  "time (enemiesHurt es s) = time s"
  "dist (enemiesHurt es s) = dist s"
  "speed (enemiesHurt es s) = speed s"
  "targetX (enemiesHurt es s) = targetX s"
  "pointerDown (enemiesHurt es s) = pointerDown s"
  "gates (enemiesHurt es s) = gates s"
  "zombies (enemiesHurt es s) = zombies s"
  "bosses (enemiesHurt es s) = bosses s"
  "obstacles (enemiesHurt es s) = obstacles s"
  "items (enemiesHurt es s) = items s"
  "bullets (enemiesHurt es s) = bullets s"
  "shootCooldown (enemiesHurt es s) = shootCooldown s"
  "lastSeg (enemiesHurt es s) = lastSeg s"
  "nextBossDist (enemiesHurt es s) = nextBossDist s"
  "attackBonus (enemiesHurt es s) = attackBonus s"
  "player (enemiesHurt es s) = player s"
  "hudAccum (enemiesHurt es s) = hudAccum s"
  "hud (enemiesHurt es s) = hud s"
  "rnd (enemiesHurt es s) = rnd s"
  "rndPos (enemiesHurt es s) = rndPos s"
  by (induction es s rule: enemiesHurt.induct; simp)+

lemma contactDamage_fields [simp]:
  "time (contactDamage s) = time s"
  "dist (contactDamage s) = dist s"
  "speed (contactDamage s) = speed s"
  "targetX (contactDamage s) = targetX s"
  "pointerDown (contactDamage s) = pointerDown s"
  "gates (contactDamage s) = gates s"
  "zombies (contactDamage s) = zombies s"
  "bosses (contactDamage s) = bosses s"
  "obstacles (contactDamage s) = obstacles s"
  "items (contactDamage s) = items s"
  "bullets (contactDamage s) = bullets s"
  "shootCooldown (contactDamage s) = shootCooldown s"
  "lastSeg (contactDamage s) = lastSeg s"
  "nextBossDist (contactDamage s) = nextBossDist s"
  "attackBonus (contactDamage s) = attackBonus s"
  "player (contactDamage s) = player s"
  "hudAccum (contactDamage s) = hudAccum s"
  "hud (contactDamage s) = hud s"
  "rnd (contactDamage s) = rnd s"
  "rndPos (contactDamage s) = rndPos s"
  by (simp_all add: contactDamage_def Let_def)

lemma collectItems_fields [simp]:
  shows "time (collectItems dy dt s) = time s"
    and "dist (collectItems dy dt s) = dist s"
    and "speed (collectItems dy dt s) = speed s"
    and "scoreValue (collectItems dy dt s) = scoreValue s"
    and "alive (collectItems dy dt s) = alive s"
    and "targetX (collectItems dy dt s) = targetX s"
    and "pointerDown (collectItems dy dt s) = pointerDown s"
    and "gates (collectItems dy dt s) = gates s"
    and "zombies (collectItems dy dt s) = zombies s"
    and "bosses (collectItems dy dt s) = bosses s"
    and "obstacles (collectItems dy dt s) = obstacles s"
    and "bullets (collectItems dy dt s) = bullets s"
    and "shootCooldown (collectItems dy dt s) = shootCooldown s"
    and "lastSeg (collectItems dy dt s) = lastSeg s"
    and "nextBossDist (collectItems dy dt s) = nextBossDist s"
    and "player (collectItems dy dt s) = player s"
    and "hudAccum (collectItems dy dt s) = hudAccum s"
    and "hud (collectItems dy dt s) = hud s"
    and "rnd (collectItems dy dt s) = rnd s"
    and "rndPos (collectItems dy dt s) = rndPos s"
proof -
  let ?R = "\<lambda>t t'. time t' = time t \<and> dist t' = dist t \<and> speed t' = speed t \<and> scoreValue t' = scoreValue t \<and> alive t' = alive t \<and> targetX t' = targetX t \<and> pointerDown t' = pointerDown t \<and> gates t' = gates t \<and> zombies t' = zombies t \<and> bosses t' = bosses t \<and> obstacles t' = obstacles t \<and> bullets t' = bullets t \<and> shootCooldown t' = shootCooldown t \<and> lastSeg t' = lastSeg t \<and> nextBossDist t' = nextBossDist t \<and> player t' = player t \<and> hudAccum t' = hudAccum t \<and> hud t' = hud t \<and> rnd t' = rnd t \<and> rndPos t' = rndPos t"
  have "?R (s) (snd (forEach (collectItem dy dt) (items s) (s)))"
    by (rule forEach_rel [where R = ?R]) (simp_all add: collectItem_def Let_def)
  then show "time (collectItems dy dt s) = time s"
    and "dist (collectItems dy dt s) = dist s"
    and "speed (collectItems dy dt s) = speed s"
    and "scoreValue (collectItems dy dt s) = scoreValue s"
    and "alive (collectItems dy dt s) = alive s"
    and "targetX (collectItems dy dt s) = targetX s"
    and "pointerDown (collectItems dy dt s) = pointerDown s"
    and "gates (collectItems dy dt s) = gates s"
    and "zombies (collectItems dy dt s) = zombies s"
    and "bosses (collectItems dy dt s) = bosses s"
    and "obstacles (collectItems dy dt s) = obstacles s"
    and "bullets (collectItems dy dt s) = bullets s"
    and "shootCooldown (collectItems dy dt s) = shootCooldown s"
    and "lastSeg (collectItems dy dt s) = lastSeg s"
    and "nextBossDist (collectItems dy dt s) = nextBossDist s"
    and "player (collectItems dy dt s) = player s"
    and "hudAccum (collectItems dy dt s) = hudAccum s"
    and "hud (collectItems dy dt s) = hud s"
    and "rnd (collectItems dy dt s) = rnd s"
    and "rndPos (collectItems dy dt s) = rndPos s"
    by (simp_all add: collectItems_def split_def Let_def)
qed

lemma prune_fields [simp]:
  "time (prune s) = time s"
  "dist (prune s) = dist s"
  "speed (prune s) = speed s"
  "scoreValue (prune s) = scoreValue s"
  "alive (prune s) = alive s"
  "targetX (prune s) = targetX s"
  "pointerDown (prune s) = pointerDown s"
  "shootCooldown (prune s) = shootCooldown s"
  "lastSeg (prune s) = lastSeg s"
  "nextBossDist (prune s) = nextBossDist s"
  "attackBonus (prune s) = attackBonus s"
  "player (prune s) = player s"
  "hudAccum (prune s) = hudAccum s"
  "hud (prune s) = hud s"
  "rnd (prune s) = rnd s"
  "rndPos (prune s) = rndPos s"
  by (simp_all add: prune_def)

lemma publishHud_fields [simp]:
  "time (publishHud dt s) = time s"
  "dist (publishHud dt s) = dist s"
  "speed (publishHud dt s) = speed s"
  "scoreValue (publishHud dt s) = scoreValue s"
  "alive (publishHud dt s) = alive s"
  "targetX (publishHud dt s) = targetX s"
  "pointerDown (publishHud dt s) = pointerDown s"
  "gates (publishHud dt s) = gates s"
  "zombies (publishHud dt s) = zombies s"
  "bosses (publishHud dt s) = bosses s"
  "obstacles (publishHud dt s) = obstacles s"
  "items (publishHud dt s) = items s"
  "bullets (publishHud dt s) = bullets s"
  "floaters (publishHud dt s) = floaters s"
  "shootCooldown (publishHud dt s) = shootCooldown s"
  "lastSeg (publishHud dt s) = lastSeg s"
  "nextBossDist (publishHud dt s) = nextBossDist s"
  "attackBonus (publishHud dt s) = attackBonus s"
  "player (publishHud dt s) = player s"
  "rnd (publishHud dt s) = rnd s"
  "rndPos (publishHud dt s) = rndPos s"
  by (simp_all add: publishHud_def Let_def)

lemma spawnZombie_fields [simp]:
  "time (spawnZombie py i s) = time s"
  "dist (spawnZombie py i s) = dist s"
  "speed (spawnZombie py i s) = speed s"
  "scoreValue (spawnZombie py i s) = scoreValue s"
  "alive (spawnZombie py i s) = alive s"
  "targetX (spawnZombie py i s) = targetX s"
  "pointerDown (spawnZombie py i s) = pointerDown s"
  "gates (spawnZombie py i s) = gates s"
  "bosses (spawnZombie py i s) = bosses s"
  "obstacles (spawnZombie py i s) = obstacles s"
  "items (spawnZombie py i s) = items s"
  "bullets (spawnZombie py i s) = bullets s"
  "floaters (spawnZombie py i s) = floaters s"
  "shootCooldown (spawnZombie py i s) = shootCooldown s"
  "lastSeg (spawnZombie py i s) = lastSeg s"
  "nextBossDist (spawnZombie py i s) = nextBossDist s"
  "attackBonus (spawnZombie py i s) = attackBonus s"
  "player (spawnZombie py i s) = player s"
  "hudAccum (spawnZombie py i s) = hudAccum s"
  "hud (spawnZombie py i s) = hud s"
  "rnd (spawnZombie py i s) = rnd s"
  by (simp_all add: spawnZombie_def mathRandom_def Let_def)

lemma fold_spawnZombie_fields [simp]:
  "time (fold (spawnZombie py) ns s) = time s"
  "dist (fold (spawnZombie py) ns s) = dist s"
  "speed (fold (spawnZombie py) ns s) = speed s"
  "scoreValue (fold (spawnZombie py) ns s) = scoreValue s"
  "alive (fold (spawnZombie py) ns s) = alive s"
  "targetX (fold (spawnZombie py) ns s) = targetX s"
  "pointerDown (fold (spawnZombie py) ns s) = pointerDown s"
  "gates (fold (spawnZombie py) ns s) = gates s"
  "bosses (fold (spawnZombie py) ns s) = bosses s"
  "obstacles (fold (spawnZombie py) ns s) = obstacles s"
  "items (fold (spawnZombie py) ns s) = items s"
  "bullets (fold (spawnZombie py) ns s) = bullets s"
  "floaters (fold (spawnZombie py) ns s) = floaters s"
  "shootCooldown (fold (spawnZombie py) ns s) = shootCooldown s"
  "lastSeg (fold (spawnZombie py) ns s) = lastSeg s"
  "nextBossDist (fold (spawnZombie py) ns s) = nextBossDist s"
  "attackBonus (fold (spawnZombie py) ns s) = attackBonus s"
  "player (fold (spawnZombie py) ns s) = player s"
  "hudAccum (fold (spawnZombie py) ns s) = hudAccum s"
  "hud (fold (spawnZombie py) ns s) = hud s"
  "rnd (fold (spawnZombie py) ns s) = rnd s"
  by (induction ns arbitrary: s; simp)+

lemma spawnSegment_fields [simp]:
  "time (spawnSegment s) = time s"
  "dist (spawnSegment s) = dist s"
  "speed (spawnSegment s) = speed s"
  "scoreValue (spawnSegment s) = scoreValue s"
  "alive (spawnSegment s) = alive s"
  "targetX (spawnSegment s) = targetX s"
  "pointerDown (spawnSegment s) = pointerDown s"
  "bosses (spawnSegment s) = bosses s"
  "items (spawnSegment s) = items s"
  "bullets (spawnSegment s) = bullets s"
  "floaters (spawnSegment s) = floaters s"
  "shootCooldown (spawnSegment s) = shootCooldown s"
  "lastSeg (spawnSegment s) = lastSeg s"
  "nextBossDist (spawnSegment s) = nextBossDist s"
  "attackBonus (spawnSegment s) = attackBonus s"
  "player (spawnSegment s) = player s"
  "hudAccum (spawnSegment s) = hudAccum s"
  "hud (spawnSegment s) = hud s"
  "rnd (spawnSegment s) = rnd s"
  by (simp_all add: spawnSegment_def spawnGatePair_def spawnZombies_def spawnObstacle_def mathRandom_def Let_def)

lemma ensureSpawnsLoop_fields [simp]:
  shows "time (ensureSpawnsLoop needSeg s) = time s"
    and "dist (ensureSpawnsLoop needSeg s) = dist s"
    and "speed (ensureSpawnsLoop needSeg s) = speed s"
    and "scoreValue (ensureSpawnsLoop needSeg s) = scoreValue s"
    and "alive (ensureSpawnsLoop needSeg s) = alive s"
    and "targetX (ensureSpawnsLoop needSeg s) = targetX s"
    and "pointerDown (ensureSpawnsLoop needSeg s) = pointerDown s"
    and "bosses (ensureSpawnsLoop needSeg s) = bosses s"
    and "items (ensureSpawnsLoop needSeg s) = items s"
    and "bullets (ensureSpawnsLoop needSeg s) = bullets s"
    and "floaters (ensureSpawnsLoop needSeg s) = floaters s"
    and "shootCooldown (ensureSpawnsLoop needSeg s) = shootCooldown s"
    and "nextBossDist (ensureSpawnsLoop needSeg s) = nextBossDist s"
    and "attackBonus (ensureSpawnsLoop needSeg s) = attackBonus s"
    and "player (ensureSpawnsLoop needSeg s) = player s"
    and "hudAccum (ensureSpawnsLoop needSeg s) = hudAccum s"
    and "hud (ensureSpawnsLoop needSeg s) = hud s"
    and "rnd (ensureSpawnsLoop needSeg s) = rnd s"
proof -
  let ?R = "\<lambda>t t'. time t' = time t \<and> dist t' = dist t \<and> speed t' = speed t \<and> scoreValue t' = scoreValue t \<and> alive t' = alive t \<and> targetX t' = targetX t \<and> pointerDown t' = pointerDown t \<and> bosses t' = bosses t \<and> items t' = items t \<and> bullets t' = bullets t \<and> floaters t' = floaters t \<and> shootCooldown t' = shootCooldown t \<and> nextBossDist t' = nextBossDist t \<and> attackBonus t' = attackBonus t \<and> player t' = player t \<and> hudAccum t' = hudAccum t \<and> hud t' = hud t \<and> rnd t' = rnd t"
  have "?R s (ensureSpawnsLoop needSeg s)"
  proof (induction needSeg s rule: ensureSpawnsLoop.induct)
    case (1 needSeg s)
    then show ?case
      by (simp add: ensureSpawnsLoop.simps [of needSeg s])
  qed
  then show "time (ensureSpawnsLoop needSeg s) = time s"
    and "dist (ensureSpawnsLoop needSeg s) = dist s"
    and "speed (ensureSpawnsLoop needSeg s) = speed s"
    and "scoreValue (ensureSpawnsLoop needSeg s) = scoreValue s"
    and "alive (ensureSpawnsLoop needSeg s) = alive s"
    and "targetX (ensureSpawnsLoop needSeg s) = targetX s"
    and "pointerDown (ensureSpawnsLoop needSeg s) = pointerDown s"
    and "bosses (ensureSpawnsLoop needSeg s) = bosses s"
    and "items (ensureSpawnsLoop needSeg s) = items s"
    and "bullets (ensureSpawnsLoop needSeg s) = bullets s"
    and "floaters (ensureSpawnsLoop needSeg s) = floaters s"
    and "shootCooldown (ensureSpawnsLoop needSeg s) = shootCooldown s"
    and "nextBossDist (ensureSpawnsLoop needSeg s) = nextBossDist s"
    and "attackBonus (ensureSpawnsLoop needSeg s) = attackBonus s"
    and "player (ensureSpawnsLoop needSeg s) = player s"
    and "hudAccum (ensureSpawnsLoop needSeg s) = hudAccum s"
    and "hud (ensureSpawnsLoop needSeg s) = hud s"
    and "rnd (ensureSpawnsLoop needSeg s) = rnd s"
    by simp_all
qed

lemma ensureSpawns_fields [simp]:
  "time (ensureSpawns s) = time s"
  "dist (ensureSpawns s) = dist s"
  "speed (ensureSpawns s) = speed s"
  "scoreValue (ensureSpawns s) = scoreValue s"
  "alive (ensureSpawns s) = alive s"
  "targetX (ensureSpawns s) = targetX s"
  "pointerDown (ensureSpawns s) = pointerDown s"
  "bosses (ensureSpawns s) = bosses s"
  "items (ensureSpawns s) = items s"
  "bullets (ensureSpawns s) = bullets s"
  "floaters (ensureSpawns s) = floaters s"
  "shootCooldown (ensureSpawns s) = shootCooldown s"
  "nextBossDist (ensureSpawns s) = nextBossDist s"
  "attackBonus (ensureSpawns s) = attackBonus s"
  "player (ensureSpawns s) = player s"
  "hudAccum (ensureSpawns s) = hudAccum s"
  "hud (ensureSpawns s) = hud s"
  "rnd (ensureSpawns s) = rnd s"
  by (simp_all add: ensureSpawns_def Let_def)

lemma spawnBoss_fields [simp]:
  "time (spawnBoss s) = time s"
  "dist (spawnBoss s) = dist s"
  "speed (spawnBoss s) = speed s"
  "scoreValue (spawnBoss s) = scoreValue s"
  "alive (spawnBoss s) = alive s"
  "targetX (spawnBoss s) = targetX s"
  "pointerDown (spawnBoss s) = pointerDown s"
  "gates (spawnBoss s) = gates s"
  "zombies (spawnBoss s) = zombies s"
  "obstacles (spawnBoss s) = obstacles s"
  "items (spawnBoss s) = items s"
  "bullets (spawnBoss s) = bullets s"
  "floaters (spawnBoss s) = floaters s"
  "shootCooldown (spawnBoss s) = shootCooldown s"
  "lastSeg (spawnBoss s) = lastSeg s"
  "attackBonus (spawnBoss s) = attackBonus s"
  "player (spawnBoss s) = player s"
  "hudAccum (spawnBoss s) = hudAccum s"
  "hud (spawnBoss s) = hud s"
  "rnd (spawnBoss s) = rnd s"
  by (simp_all add: spawnBoss_def mathRandom_def Let_def)

lemma ensureBossSpawn_fields [simp]:
  shows "time (ensureBossSpawn s) = time s"
    and "dist (ensureBossSpawn s) = dist s"
    and "speed (ensureBossSpawn s) = speed s"
    and "scoreValue (ensureBossSpawn s) = scoreValue s"
    and "alive (ensureBossSpawn s) = alive s"
    and "targetX (ensureBossSpawn s) = targetX s"
    and "pointerDown (ensureBossSpawn s) = pointerDown s"
    and "gates (ensureBossSpawn s) = gates s"
    and "zombies (ensureBossSpawn s) = zombies s"
    and "obstacles (ensureBossSpawn s) = obstacles s"
    and "items (ensureBossSpawn s) = items s"
    and "bullets (ensureBossSpawn s) = bullets s"
    and "floaters (ensureBossSpawn s) = floaters s"
    and "shootCooldown (ensureBossSpawn s) = shootCooldown s"
    and "lastSeg (ensureBossSpawn s) = lastSeg s"
    and "attackBonus (ensureBossSpawn s) = attackBonus s"
    and "player (ensureBossSpawn s) = player s"
    and "hudAccum (ensureBossSpawn s) = hudAccum s"
    and "hud (ensureBossSpawn s) = hud s"
    and "rnd (ensureBossSpawn s) = rnd s"
proof -
  let ?R = "\<lambda>t t'. time t' = time t \<and> dist t' = dist t \<and> speed t' = speed t \<and> scoreValue t' = scoreValue t \<and> alive t' = alive t \<and> targetX t' = targetX t \<and> pointerDown t' = pointerDown t \<and> gates t' = gates t \<and> zombies t' = zombies t \<and> obstacles t' = obstacles t \<and> items t' = items t \<and> bullets t' = bullets t \<and> floaters t' = floaters t \<and> shootCooldown t' = shootCooldown t \<and> lastSeg t' = lastSeg t \<and> attackBonus t' = attackBonus t \<and> player t' = player t \<and> hudAccum t' = hudAccum t \<and> hud t' = hud t \<and> rnd t' = rnd t"
  have "?R s (ensureBossSpawn s)"
  proof (induction s rule: ensureBossSpawn.induct)
    case (1 s)
    then show ?case
      by (simp add: ensureBossSpawn.simps [of s])
  qed
  then show "time (ensureBossSpawn s) = time s"
    and "dist (ensureBossSpawn s) = dist s"
    and "speed (ensureBossSpawn s) = speed s"
    and "scoreValue (ensureBossSpawn s) = scoreValue s"
    and "alive (ensureBossSpawn s) = alive s"
    and "targetX (ensureBossSpawn s) = targetX s"
    and "pointerDown (ensureBossSpawn s) = pointerDown s"
    and "gates (ensureBossSpawn s) = gates s"
    and "zombies (ensureBossSpawn s) = zombies s"
    and "obstacles (ensureBossSpawn s) = obstacles s"
    and "items (ensureBossSpawn s) = items s"
    and "bullets (ensureBossSpawn s) = bullets s"
    and "floaters (ensureBossSpawn s) = floaters s"
    and "shootCooldown (ensureBossSpawn s) = shootCooldown s"
    and "lastSeg (ensureBossSpawn s) = lastSeg s"
    and "attackBonus (ensureBossSpawn s) = attackBonus s"
    and "player (ensureBossSpawn s) = player s"
    and "hudAccum (ensureBossSpawn s) = hudAccum s"
    and "hud (ensureBossSpawn s) = hud s"
    and "rnd (ensureBossSpawn s) = rnd s"
    by simp_all
qed


lemma moveAndResolve_clock [simp]:
  "time (moveAndResolve dt s) = time s + dt"
  "dist (moveAndResolve dt s) = dist s + speed s * dt"
  "speed (moveAndResolve dt s) = speed s"
  "nextBossDist (moveAndResolve dt s) = nextBossDist s"
  "lastSeg (moveAndResolve dt s) = lastSeg s"
  by (simp_all add: moveAndResolve_def Let_def advanceClock_def)


subsection \<open>Gate arithmetic\<close>



subsection \<open>Crowd width\<close>

lemma getCrowdWidth_bands:
  assumes "1 \<le> n" "n \<le> 20"
  shows "getCrowdWidth n =
           (if n \<le> 4 then 18 * n - 8 else if n \<le> 8 then 17 * n - 7
            else if n \<le> 12 then 16 * n - 6 else if n \<le> 16 then 15 * n - 5
            else 14 * n - 4)"
proof -
  have d: "(n - 1) div 4 =
             (if n \<le> 4 then 0 else if n \<le> 8 then 1
              else if n \<le> 12 then 2 else if n \<le> 16 then 3 else 4)"
    using assms by presburger
  show ?thesis
    using assms
    unfolding getCrowdWidth_def getPlayerSegmentSpacing_def game_consts Let_def d
    by (simp add: algebra_simps)
qed

text \<open>
  C4, as the claim states it, fails: seventeen segments are narrower than sixteen,
  because the spacing drops from 5 to 4 at the seventeenth segment
  (\<open>16 * 10 + 15 * 5 = 235\<close>, \<open>17 * 10 + 16 * 4 = 234\<close>).
\<close>

theorem getCrowdWidth_not_monotone:
  "(1::int) \<le> 16 \<and> (16::int) < 17 \<and> (17::int) \<le> 20
   \<and> \<not> getCrowdWidth 16 < getCrowdWidth 17"
  by (simp add: getCrowdWidth_def getPlayerSegmentSpacing_def game_consts)

text \<open>
  C4 (amended). The crowd width is a function of the segment count alone: the width
  that \<open>update\<close> gives the player rectangle is computed from the count of the score and
  from nothing else. The spacing is 8 less one per four additional segments, never below 2.
  For all counts \<open>m < n\<close> in \<open>[1, 20]\<close> other than the pair \<open>(16, 17)\<close>,
  \<open>getCrowdWidth m < getCrowdWidth n\<close>; at that pair the width goes down from 235 to 234.
\<close>

theorem getCrowdWidth_monotone_except_16_17:
  "w (player (resizePlayer s)) =
     real_of_int (max MIN_PLAYER_WIDTH (getCrowdWidth (getPlayerCount (scoreValue s))))
   \<and> (1 \<le> n \<longrightarrow> getPlayerSegmentSpacing n = max 2 (8 - (n - 1) div 4))
   \<and> (1 \<le> m \<and> m < n \<and> n \<le> 20 \<and> (m, n) \<noteq> (16, 17)
        \<longrightarrow> getCrowdWidth m < getCrowdWidth n)
   \<and> getCrowdWidth 16 = 235 \<and> getCrowdWidth 17 = 234"
proof -
  have width: "w (player (resizePlayer s)) =
     real_of_int (max MIN_PLAYER_WIDTH (getCrowdWidth (getPlayerCount (scoreValue s))))"
    by (simp add: resizePlayer_def Let_def)
  have spacing: "1 \<le> n \<longrightarrow> getPlayerSegmentSpacing n = max 2 (8 - (n - 1) div 4)"
    unfolding getPlayerSegmentSpacing_def game_consts Let_def by simp
  have mono: "getCrowdWidth m < getCrowdWidth n"
    if a: "1 \<le> m \<and> m < n \<and> n \<le> 20 \<and> (m, n) \<noteq> (16, 17)"
  proof -
    have m: "1 \<le> m" "m \<le> 20" and n: "1 \<le> n" "n \<le> 20"
      using a by auto
    show ?thesis
      unfolding getCrowdWidth_bands [OF m] getCrowdWidth_bands [OF n]
      using a by (auto split: if_splits)
  qed
  have "getCrowdWidth 16 = 235" "getCrowdWidth 17 = 234"
    by (simp_all add: getCrowdWidth_def getPlayerSegmentSpacing_def game_consts)
  with width spacing mono show ?thesis
    by blast
qed

theorem getCrowdWidth_monotone_except_16_17_witness:
  "(1::int) \<le> 4 \<and> (4::int) < 5 \<and> (5::int) \<le> 20 \<and> (4::int, 5::int) \<noteq> (16, 17)
   \<and> getPlayerSegmentSpacing 5 = 7 \<and> getCrowdWidth 4 < getCrowdWidth 5"
  using getCrowdWidth_monotone_except_16_17 [of "initialState (\<lambda>_. 0)" 5 4]
  by simp

subsection \<open>The dead world is frozen\<close>

text \<open>
  C8. When the alive flag is false, \<open>update\<close> returns the state it was given: every
  collection, the score, the distance, the time and the player rectangle are untouched.
\<close>

theorem update_not_alive_noop:
  "\<not> alive s \<Longrightarrow> update dt s = s"
  by (simp add: update_def)

theorem update_not_alive_noop_witness:
  "\<not> alive ((initialState (\<lambda>_. 0))\<lparr>alive := False\<rparr>)
   \<and> update (1 / 60) ((initialState (\<lambda>_. 0))\<lparr>alive := False\<rparr>)
       = (initialState (\<lambda>_. 0))\<lparr>alive := False\<rparr>"
  using update_not_alive_noop [of "(initialState (\<lambda>_. 0))\<lparr>alive := False\<rparr>" "1 / 60"]
  by simp

subsection \<open>Boss thresholds\<close>

lemma ensureBossSpawn_spec:
  "\<exists>n new. bosses (ensureBossSpawn s) = bosses s @ new \<and> length new = n
      \<and> nextBossDist (ensureBossSpawn s) = nextBossDist s + 2000 * of_nat n
      \<and> (\<forall>k<n. nextBossDist s + 2000 * of_nat k \<le> dist s)
      \<and> dist s < nextBossDist s + 2000 * of_nat n
      \<and> dist (ensureBossSpawn s) = dist s"
proof (induction s rule: ensureBossSpawn.induct)
  case (1 s)
  show ?case
  proof (cases "nextBossDist s \<le> dist s")
    case False
    then show ?thesis
      by (subst (1 2 3) ensureBossSpawn.simps) simp
  next
    case True
    from 1 [OF True] obtain n new where
      ih: "bosses (ensureBossSpawn (spawnBoss s)) = bosses (spawnBoss s) @ new"
        "length new = n"
        "nextBossDist (ensureBossSpawn (spawnBoss s))
           = nextBossDist (spawnBoss s) + 2000 * of_nat n"
        "\<forall>k<n. nextBossDist (spawnBoss s) + 2000 * of_nat k \<le> dist (spawnBoss s)"
        "dist (spawnBoss s) < nextBossDist (spawnBoss s) + 2000 * of_nat n"
        "dist (ensureBossSpawn (spawnBoss s)) = dist (spawnBoss s)"
      by blast
    obtain b where b: "bosses (spawnBoss s) = bosses s @ [b]"
      by (simp add: spawnBoss_def mathRandom_def Let_def split: prod.splits)
    have e: "ensureBossSpawn s = ensureBossSpawn (spawnBoss s)"
      using True by (subst ensureBossSpawn.simps) simp
    have k: "\<forall>k<Suc n. nextBossDist s + 2000 * of_nat k \<le> dist s"
    proof (intro allI impI)
      fix k assume "k < Suc n"
      show "nextBossDist s + 2000 * of_nat k \<le> dist s"
      proof (cases k)
        case 0
        then show ?thesis using True by simp
      next
        case (Suc j)
        then have "j < n" using \<open>k < Suc n\<close> by simp
        with ih(4) have "nextBossDist (spawnBoss s) + 2000 * of_nat j \<le> dist (spawnBoss s)"
          by blast
        then show ?thesis using Suc by (simp add: algebra_simps)
      qed
    qed
    show ?thesis
      apply (rule exI [of _ "Suc n"], rule exI [of _ "b # new"])
      using ih b k unfolding e by (simp add: algebra_simps)
  qed
qed

lemma thresholds_5000:
  fixes n :: nat
  assumes "\<forall>k<n. (2000::real) + 2000 * of_nat k \<le> 5000" and "(5000::real) < 2000 + 2000 * of_nat n"
  shows "n = 2"
proof -
  have "\<not> 2 < n"
  proof
    assume "2 < n"
    with assms(1) have "(2000::real) + 2000 * of_nat 2 \<le> 5000" by blast
    then show False by simp
  qed
  moreover have "\<not> n < 2"
  proof
    assume "n < 2"
    then have "n = 0 \<or> n = 1" by auto
    with assms(2) show False by auto
  qed
  ultimately show ?thesis by simp
qed

text \<open>
  C5. \<open>ensureBossSpawn\<close> appends one boss per threshold crossed and leaves the distance
  below the next threshold: with \<open>n\<close> the number of bosses appended, the thresholds
  \<open>nextBossDist + 2000 * k\<close> for \<open>k < n\<close> are exactly those at or below the distance.
  At distance 5000 with threshold 2000 that is two bosses and the threshold becomes 6000.
  The same holds for a whole frame of \<open>update\<close>: the bosses appended after pruning are one
  per threshold crossed by the new distance, so a jump from 1999 to 5000 spawns two.
\<close>

theorem ensureBossSpawn_catches_up:
  "(\<exists>n new. bosses (ensureBossSpawn s) = bosses s @ new \<and> length new = n
      \<and> nextBossDist (ensureBossSpawn s) = nextBossDist s + 2000 * of_nat n
      \<and> (\<forall>k<n. nextBossDist s + 2000 * of_nat k \<le> dist s)
      \<and> dist s < nextBossDist (ensureBossSpawn s)
      \<and> dist (ensureBossSpawn s) = dist s
      \<and> (dist s = 5000 \<and> nextBossDist s = 2000
           \<longrightarrow> n = 2 \<and> nextBossDist (ensureBossSpawn s) = 6000))
   \<and> (alive s \<longrightarrow>
        (\<exists>n new. bosses (update dt s) = bosses (prune (moveAndResolve dt s)) @ new
           \<and> length new = n
           \<and> dist (update dt s) = dist s + speed s * dt
           \<and> nextBossDist (update dt s) = nextBossDist s + 2000 * of_nat n
           \<and> (\<forall>k<n. nextBossDist s + 2000 * of_nat k \<le> dist (update dt s))
           \<and> dist (update dt s) < nextBossDist (update dt s)
           \<and> (dist s = 1999 \<and> dist (update dt s) = 5000 \<and> nextBossDist s = 2000
                \<longrightarrow> n = 2 \<and> nextBossDist (update dt s) = 6000)))"
proof -
  have A: "\<exists>n new. bosses (ensureBossSpawn t) = bosses t @ new \<and> length new = n
      \<and> nextBossDist (ensureBossSpawn t) = nextBossDist t + 2000 * of_nat n
      \<and> (\<forall>k<n. nextBossDist t + 2000 * of_nat k \<le> dist t)
      \<and> dist t < nextBossDist (ensureBossSpawn t)
      \<and> dist (ensureBossSpawn t) = dist t
      \<and> (dist t = 5000 \<and> nextBossDist t = 2000
           \<longrightarrow> n = 2 \<and> nextBossDist (ensureBossSpawn t) = 6000)" for t
  proof -
    obtain n new where h: "bosses (ensureBossSpawn t) = bosses t @ new" "length new = n"
      "nextBossDist (ensureBossSpawn t) = nextBossDist t + 2000 * of_nat n"
      "\<forall>k<n. nextBossDist t + 2000 * of_nat k \<le> dist t"
      "dist t < nextBossDist t + 2000 * of_nat n"
      "dist (ensureBossSpawn t) = dist t"
      using ensureBossSpawn_spec [of t] by blast
    have "n = 2" if "dist t = 5000 \<and> nextBossDist t = 2000"
      using h(4,5) that thresholds_5000 [of n] by simp
    with h show ?thesis
      by (intro exI [of _ n] exI [of _ new]) auto
  qed
  have B: "\<exists>n new. bosses (update dt s) = bosses (prune (moveAndResolve dt s)) @ new
           \<and> length new = n
           \<and> dist (update dt s) = dist s + speed s * dt
           \<and> nextBossDist (update dt s) = nextBossDist s + 2000 * of_nat n
           \<and> (\<forall>k<n. nextBossDist s + 2000 * of_nat k \<le> dist (update dt s))
           \<and> dist (update dt s) < nextBossDist (update dt s)
           \<and> (dist s = 1999 \<and> dist (update dt s) = 5000 \<and> nextBossDist s = 2000
                \<longrightarrow> n = 2 \<and> nextBossDist (update dt s) = 6000)" if al: "alive s"
  proof -
    let ?t = "ensureSpawns (prune (moveAndResolve dt s))"
    have u: "update dt s = publishHud dt (ensureBossSpawn ?t)"
      using al by (simp add: update_def)
    have t: "dist ?t = dist s + speed s * dt" "nextBossDist ?t = nextBossDist s"
      "bosses ?t = bosses (prune (moveAndResolve dt s))"
      by simp_all
    obtain n new where h: "bosses (ensureBossSpawn ?t) = bosses ?t @ new" "length new = n"
      "nextBossDist (ensureBossSpawn ?t) = nextBossDist ?t + 2000 * of_nat n"
      "\<forall>k<n. nextBossDist ?t + 2000 * of_nat k \<le> dist ?t"
      "dist ?t < nextBossDist (ensureBossSpawn ?t)"
      "dist (ensureBossSpawn ?t) = dist ?t"
      "dist ?t = 5000 \<and> nextBossDist ?t = 2000
         \<longrightarrow> n = 2 \<and> nextBossDist (ensureBossSpawn ?t) = 6000"
      using A [of ?t] by blast
    show ?thesis
      unfolding u
      by (intro exI [of _ n] exI [of _ new]) (use h in \<open>simp add: t\<close>)
  qed
  from A [of s] B show ?thesis by blast
qed

theorem ensureBossSpawn_catches_up_witness:
  "alive bossJumpState \<and> dist bossJumpState = 1999 \<and> nextBossDist bossJumpState = 2000
   \<and> dist (update (3001 / 180) bossJumpState) = 5000
   \<and> length (bosses (update (3001 / 180) bossJumpState))
       = length (bosses (prune (moveAndResolve (3001 / 180) bossJumpState))) + 2
   \<and> nextBossDist (update (3001 / 180) bossJumpState) = 6000"
proof -
  have a: "alive bossJumpState" "dist bossJumpState = 1999" "nextBossDist bossJumpState = 2000"
    "speed bossJumpState = 180"
    by (simp_all add: bossJumpState_def initialState_def BOSS_INTERVAL_def)
  show ?thesis
    using ensureBossSpawn_catches_up [of bossJumpState "3001 / 180"]
    by (auto simp: a)
qed

subsection \<open>Bullets against enemies and obstacles\<close>

lemma hitFirst_None:
  "snd (hitFirst b es) = None \<Longrightarrow>
   fst (hitFirst b es) = es \<and> (\<forall>e\<in>set es. hp e \<le> 0 \<or> \<not> aabb b e)"
  by (induction es) (auto simp: split_def Let_def split: if_splits)

lemma hitFirst_Some:
  "snd (hitFirst b es) = Some e' \<Longrightarrow>
   \<exists>pre e post. es = pre @ e # post \<and> (\<forall>p\<in>set pre. hp p \<le> 0 \<or> \<not> aabb b p)
      \<and> 0 < hp e \<and> aabb b e \<and> e' = e\<lparr>hp := hp e - dmg b\<rparr>
      \<and> fst (hitFirst b es) = pre @ e' # post"
proof (induction es)
  case Nil
  then show ?case by simp
next
  case (Cons a es)
  show ?case
  proof (cases "hp a \<le> 0 \<or> \<not> aabb b a")
    case True
    then have s: "snd (hitFirst b (a # es)) = snd (hitFirst b es)"
      "fst (hitFirst b (a # es)) = a # fst (hitFirst b es)"
      by (auto simp: split_def Let_def)
    with Cons obtain pre e post where h: "es = pre @ e # post"
      "\<forall>p\<in>set pre. hp p \<le> 0 \<or> \<not> aabb b p" "0 < hp e" "aabb b e"
      "e' = e\<lparr>hp := hp e - dmg b\<rparr>" "fst (hitFirst b es) = pre @ e' # post"
      by auto
    show ?thesis
      apply (rule exI [of _ "a # pre"], rule exI [of _ e], rule exI [of _ post])
      using h True s by auto
  next
    case False
    then have eq: "hitFirst b (a # es) = (a\<lparr>hp := hp a - dmg b\<rparr> # es, Some (a\<lparr>hp := hp a - dmg b\<rparr>))"
      by (auto simp: Let_def)
    show ?thesis
      apply (rule exI [of _ "[]"], rule exI [of _ a], rule exI [of _ es])
      using Cons.prems False eq by auto
  qed
qed


lemma collideBullet_cases:
  assumes "collideBullet b s = (b', s')"
  shows "(life b \<le> 0 \<and> b' = b \<and> s' = s)
    \<or> (0 < life b
        \<and> (\<exists>pre z post. zombies s = pre @ z # post
              \<and> (\<forall>p\<in>set pre. hp p \<le> 0 \<or> \<not> aabb b p) \<and> 0 < hp z \<and> aabb b z
              \<and> b' = b\<lparr>life := 0\<rparr>
              \<and> s' = spawnFloater (''-'' @ showInt (dmg b)) (x z + w z / 2) (y z)
                        (s\<lparr>zombies := pre @ z\<lparr>hp := hp z - dmg b\<rparr> # post\<rparr>)))
    \<or> (0 < life b \<and> (\<forall>z\<in>set (zombies s). hp z \<le> 0 \<or> \<not> aabb b z)
        \<and> (\<exists>pre z post. bosses s = pre @ z # post
              \<and> (\<forall>p\<in>set pre. hp p \<le> 0 \<or> \<not> aabb b p) \<and> 0 < hp z \<and> aabb b z
              \<and> b' = b\<lparr>life := 0\<rparr>
              \<and> s' = spawnFloater (''-'' @ showInt (dmg b)) (x z + w z / 2) (y z)
                        (s\<lparr>bosses := pre @ z\<lparr>hp := hp z - dmg b\<rparr> # post\<rparr>)))
    \<or> (0 < life b \<and> (\<forall>z\<in>set (zombies s). hp z \<le> 0 \<or> \<not> aabb b z)
        \<and> (\<forall>z\<in>set (bosses s). hp z \<le> 0 \<or> \<not> aabb b z)
        \<and> (\<exists>pre ob post. obstacles s = pre @ ob # post
              \<and> (\<forall>p\<in>set pre. hp p \<le> 0 \<or> \<not> aabb b p) \<and> 0 < hp ob \<and> aabb b ob
              \<and> b' = b\<lparr>life := 0\<rparr>
              \<and> s' = dropAttackItem (ob\<lparr>hp := hp ob - dmg b\<rparr>)
                        (spawnFloater (''-'' @ showInt (dmg b)) (x ob + w ob / 2) (y ob)
                           (s\<lparr>obstacles := pre @ ob\<lparr>hp := hp ob - dmg b\<rparr> # post\<rparr>))))
    \<or> (0 < life b \<and> (\<forall>z\<in>set (zombies s). hp z \<le> 0 \<or> \<not> aabb b z)
        \<and> (\<forall>z\<in>set (bosses s). hp z \<le> 0 \<or> \<not> aabb b z)
        \<and> (\<forall>ob\<in>set (obstacles s). hp ob \<le> 0 \<or> \<not> aabb b ob)
        \<and> b' = b \<and> s' = s)"
proof (cases "life b \<le> 0")
  case True
  with assms show ?thesis by (simp add: collideBullet_def)
next
  case False
  then have live: "0 < life b" "\<not> life b \<le> 0" by simp_all
  obtain zs rz where hz: "hitFirst b (zombies s) = (zs, rz)" by (cases "hitFirst b (zombies s)")
  show ?thesis
  proof (cases rz)
    case (Some e')
    from hitFirst_Some [of b "zombies s" e'] hz Some
    obtain pre z post where h: "zombies s = pre @ z # post"
      "\<forall>p\<in>set pre. hp p \<le> 0 \<or> \<not> aabb b p" "0 < hp z" "aabb b z"
      "e' = z\<lparr>hp := hp z - dmg b\<rparr>" "zs = pre @ e' # post"
      by auto
    have r: "b' = b\<lparr>life := 0\<rparr>"
      "s' = spawnFloater (''-'' @ showInt (dmg b)) (x z + w z / 2) (y z)
                        (s\<lparr>zombies := pre @ z\<lparr>hp := hp z - dmg b\<rparr> # post\<rparr>)"
      using assms live hz Some h(5,6) by (simp_all add: collideBullet_def)
    show ?thesis
      apply (rule disjI2, rule disjI1)
      using h(1-4) live(1) r by blast
  next
    case None
    from hitFirst_None [of b "zombies s"] hz None
    have nz: "\<forall>z\<in>set (zombies s). hp z \<le> 0 \<or> \<not> aabb b z" by simp
    obtain bs rb where hb: "hitFirst b (bosses s) = (bs, rb)" by (cases "hitFirst b (bosses s)")
    show ?thesis
    proof (cases rb)
      case (Some e')
      from hitFirst_Some [of b "bosses s" e'] hb Some
      obtain pre z post where h: "bosses s = pre @ z # post"
        "\<forall>p\<in>set pre. hp p \<le> 0 \<or> \<not> aabb b p" "0 < hp z" "aabb b z"
        "e' = z\<lparr>hp := hp z - dmg b\<rparr>" "bs = pre @ e' # post"
        by auto
      have r: "b' = b\<lparr>life := 0\<rparr>"
        "s' = spawnFloater (''-'' @ showInt (dmg b)) (x z + w z / 2) (y z)
                          (s\<lparr>bosses := pre @ z\<lparr>hp := hp z - dmg b\<rparr> # post\<rparr>)"
        using assms live hz None hb Some h(5,6) by (simp_all add: collideBullet_def)
      show ?thesis
        apply (rule disjI2, rule disjI2, rule disjI1)
        using h(1-4) live(1) nz r by blast
    next
      case nb: None
      from hitFirst_None [of b "bosses s"] hb nb
      have nbs: "\<forall>z\<in>set (bosses s). hp z \<le> 0 \<or> \<not> aabb b z" by simp
      obtain os ro where ho: "hitFirst b (obstacles s) = (os, ro)"
        by (cases "hitFirst b (obstacles s)")
      show ?thesis
      proof (cases ro)
        case (Some e')
        from hitFirst_Some [of b "obstacles s" e'] ho Some
        obtain pre ob post where h: "obstacles s = pre @ ob # post"
          "\<forall>p\<in>set pre. hp p \<le> 0 \<or> \<not> aabb b p" "0 < hp ob" "aabb b ob"
          "e' = ob\<lparr>hp := hp ob - dmg b\<rparr>" "os = pre @ e' # post"
          by auto
        have r: "b' = b\<lparr>life := 0\<rparr>"
          "s' = dropAttackItem (ob\<lparr>hp := hp ob - dmg b\<rparr>)
                        (spawnFloater (''-'' @ showInt (dmg b)) (x ob + w ob / 2) (y ob)
                           (s\<lparr>obstacles := pre @ ob\<lparr>hp := hp ob - dmg b\<rparr> # post\<rparr>))"
          using assms live hz None hb nb ho Some h(5,6) by (simp_all add: collideBullet_def)
        show ?thesis
          apply (rule disjI2, rule disjI2, rule disjI2, rule disjI1)
          using h(1-4) live(1) nz nbs r by blast
      next
        case no: None
        from hitFirst_None [of b "obstacles s"] ho no
        have nos: "\<forall>z\<in>set (obstacles s). hp z \<le> 0 \<or> \<not> aabb b z" by simp
        have r: "b' = b" "s' = s"
          using assms live hz None hb nb ho no by (simp_all add: collideBullet_def)
        show ?thesis
          apply (rule disjI2, rule disjI2, rule disjI2, rule disjI2)
          using live(1) nz nbs nos r by blast
      qed
    qed
  qed
qed



lemma hitOnly_refl: "hitOnly ob ob"
  by (simp add: hitOnly_def)

lemma hitOnly_trans: "hitOnly a b \<Longrightarrow> hitOnly b c \<Longrightarrow> hitOnly a c"
  by (simp add: hitOnly_def)

lemma hitOnly_expected: "hitOnly a b \<Longrightarrow> expectedAttackItem b = expectedAttackItem a"
  by (simp add: hitOnly_def expectedAttackItem_def)

lemma destroyed_same [simp]: "destroyed xs xs = []"
  by (induction xs) (simp_all add: destroyed_def)

lemma destroyed_Nil [simp]: "destroyed [] ys = []"
  by (simp add: destroyed_def)

lemma destroyed_Cons [simp]:
  "destroyed (a # xs) (b # ys) = (if 0 < hp a \<and> hp b \<le> 0 then [a] else []) @ destroyed xs ys"
  by (simp add: destroyed_def)

lemma destroyed_one:
  "destroyed (pre @ a # post) (pre @ b # post) = (if 0 < hp a \<and> hp b \<le> 0 then [a] else [])"
  by (induction pre) simp_all

lemma list_all2_hitOnly_refl: "list_all2 hitOnly xs xs"
  by (simp add: list_all2_refl hitOnly_refl)

lemma list_all2_hitOnly_trans:
  "list_all2 hitOnly xs ys \<Longrightarrow> list_all2 hitOnly ys zs \<Longrightarrow> list_all2 hitOnly xs zs"
  by (rule list_all2_trans [where ?P1.0 = hitOnly and ?P2.0 = hitOnly]) (auto intro: hitOnly_trans)

lemma destroyed_compose:
  "list_all2 hitOnly xs ys \<Longrightarrow> list_all2 hitOnly ys zs \<Longrightarrow>
   mset (map expectedAttackItem (destroyed xs zs))
     = mset (map expectedAttackItem (destroyed xs ys))
       + mset (map expectedAttackItem (destroyed ys zs))"
proof (induction xs ys arbitrary: zs rule: list_all2_induct)
  case Nil
  then show ?case by simp
next
  case (Cons a xs b ys)
  from Cons.prems obtain c zs' where z: "zs = c # zs'" "hitOnly b c" "list_all2 hitOnly ys zs'"
    by (auto simp: list_all2_Cons1)
  have ih: "mset (map expectedAttackItem (destroyed xs zs'))
     = mset (map expectedAttackItem (destroyed xs ys))
       + mset (map expectedAttackItem (destroyed ys zs'))"
    by (rule Cons.IH [OF z(3)])
  have e: "expectedAttackItem b = expectedAttackItem a"
    by (rule hitOnly_expected [OF Cons.hyps(1)])
  have ab: "hp a \<le> 0 \<longrightarrow> hp b = hp a" and bc: "hp b \<le> 0 \<longrightarrow> hp c = hp b"
    using Cons.hyps(1) z(2) by (simp_all add: hitOnly_def)
  show ?case
    unfolding z(1) using ab bc ih by (auto simp: e)
qed


lemma dropAttackItem_items:
  "items (dropAttackItem ob t)
     = items t @ (if hp ob \<le> 0 then [expectedAttackItem ob] else [])"
  by (simp add: dropAttackItem_def spawnAttackItem_def expectedAttackItem_def Let_def game_consts)

lemma hitOnly_hit: "0 < hp ob \<Longrightarrow> hitOnly ob (ob\<lparr>hp := v\<rparr>)"
  by (simp add: hitOnly_def)

lemma hitOnly_one: "0 < hp ob \<Longrightarrow> list_all2 hitOnly (pre @ ob # post) (pre @ ob\<lparr>hp := v\<rparr> # post)"
  by (intro list_all2_appendI) (simp_all add: list_all2_hitOnly_refl hitOnly_hit)

lemma collideBullet_obstacles_items:
  "list_all2 hitOnly (obstacles t) (obstacles (snd (collideBullet b t)))
   \<and> (\<exists>new. items (snd (collideBullet b t)) = items t @ new
         \<and> mset new = mset (map expectedAttackItem
                              (destroyed (obstacles t) (obstacles (snd (collideBullet b t))))))"
proof -
  obtain b' t' where r: "collideBullet b t = (b', t')" by (cases "collideBullet b t")
  from collideBullet_cases [OF r]
  have "list_all2 hitOnly (obstacles t) (obstacles t')
   \<and> (\<exists>new. items t' = items t @ new
         \<and> mset new = mset (map expectedAttackItem (destroyed (obstacles t) (obstacles t'))))"
  proof (elim disjE conjE exE)
    fix pre ob post
    assume o: "obstacles t = pre @ ob # post" "0 < hp ob"
      and t': "t' = dropAttackItem (ob\<lparr>hp := hp ob - dmg b\<rparr>)
                     (spawnFloater (''-'' @ showInt (dmg b)) (x ob + w ob / 2) (y ob)
                        (t\<lparr>obstacles := pre @ ob\<lparr>hp := hp ob - dmg b\<rparr> # post\<rparr>))"
    have ob': "obstacles t' = pre @ ob\<lparr>hp := hp ob - dmg b\<rparr> # post"
      by (simp add: t')
    have it: "items t' = items t
                @ (if hp ob - dmg b \<le> 0 then [expectedAttackItem (ob\<lparr>hp := hp ob - dmg b\<rparr>)] else [])"
      by (simp add: t' dropAttackItem_items)
    have ex: "expectedAttackItem (ob\<lparr>hp := hp ob - dmg b\<rparr>) = expectedAttackItem ob"
      by (simp add: expectedAttackItem_def)
    show ?thesis
      unfolding ob' o(1) it ex destroyed_one
      using o(2) by (simp add: hitOnly_one)
  qed (simp_all add: list_all2_hitOnly_refl)
  then show ?thesis by (simp add: r)
qed

lemma collideBullets_obstacles_items:
  "list_all2 hitOnly (obstacles s) (obstacles (collideBullets s))
   \<and> (\<exists>new. items (collideBullets s) = items s @ new
         \<and> mset new = mset (map expectedAttackItem
                              (destroyed (obstacles s) (obstacles (collideBullets s)))))"
proof -
  let ?K = "\<lambda>t t'. list_all2 hitOnly (obstacles t) (obstacles t')
     \<and> (\<exists>new. items t' = items t @ new
           \<and> mset new = mset (map expectedAttackItem (destroyed (obstacles t) (obstacles t'))))"
  have "?K s (snd (forEach collideBullet (bullets s) s))"
  proof (rule forEach_rel [where R = ?K])
    fix t :: State
    show "?K t t" by (simp add: list_all2_hitOnly_refl)
  next
    fix a b c :: State
    assume ab: "?K a b" and bc: "?K b c"
    from ab obtain n1 where n1: "items b = items a @ n1"
      "mset n1 = mset (map expectedAttackItem (destroyed (obstacles a) (obstacles b)))"
      by blast
    from bc obtain n2 where n2: "items c = items b @ n2"
      "mset n2 = mset (map expectedAttackItem (destroyed (obstacles b) (obstacles c)))"
      by blast
    have h: "list_all2 hitOnly (obstacles a) (obstacles b)"
      "list_all2 hitOnly (obstacles b) (obstacles c)"
      using ab bc by simp_all
    have "items c = items a @ (n1 @ n2)" by (simp add: n1 n2)
    moreover have "mset (n1 @ n2)
        = mset (map expectedAttackItem (destroyed (obstacles a) (obstacles c)))"
      unfolding destroyed_compose [OF h] using n1(2) n2(2) by simp
    ultimately have "\<exists>new. items c = items a @ new
        \<and> mset new = mset (map expectedAttackItem (destroyed (obstacles a) (obstacles c)))"
      by blast
    with list_all2_hitOnly_trans [OF h] show "?K a c" by simp
  next
    fix e t
    show "?K t (snd (collideBullet e t))" by (rule collideBullet_obstacles_items)
  qed
  then show ?thesis by (simp add: collideBullets_def split_def Let_def)
qed

lemma collectItem_moves:
  "y (fst (collectItem dy dt it t)) = y it + dy + item_vy it * dt"
  by (simp add: collectItem_def Let_def)

text \<open>
  C7. Over the whole bullet loop of one frame, every obstacle keeps its place, rectangle
  and \<open>maxHp\<close>, one already at \<open>hp \<le> 0\<close> is never touched again, and the items appended
  are exactly one per obstacle that went from \<open>hp > 0\<close> to \<open>hp \<le> 0\<close>: each is the item the
  specification describes for that obstacle (under its bottom centre, bonus
  \<open>clamp(floor(maxHp / 30), 1, 6)\<close>, fall speed 140). An item then moves down by the lane
  scroll plus its own fall speed times the elapsed time.
\<close>

theorem destroyed_obstacle_drops_one_item:
  "list_all2 hitOnly (obstacles s) (obstacles (collideBullets s))
   \<and> (\<exists>new. items (collideBullets s) = items s @ new
         \<and> mset new = mset (map expectedAttackItem
                              (destroyed (obstacles s) (obstacles (collideBullets s)))))
   \<and> y (fst (collectItem dy dt it t)) = y it + dy + item_vy it * dt"
  using collideBullets_obstacles_items [of s] collectItem_moves [of dy dt it t]
  by blast

theorem destroyed_obstacle_drops_one_item_witness:
  "map hp (obstacles volleyState) = [5]
   \<and> map hp (obstacles (collideBullets volleyState)) = [0]
   \<and> items (collideBullets volleyState)
       = [expectedAttackItem \<lparr>x = 200, y = 100, w = 56, h = 56, hp = 5, maxHp = 32\<rparr>]
   \<and> map life (bullets (collideBullets volleyState)) = [0, 0, 1]
   \<and> list_all2 hitOnly (obstacles volleyState) (obstacles (collideBullets volleyState))"
proof -
  have e: "map hp (obstacles volleyState) = [5]
     \<and> map hp (obstacles (collideBullets volleyState)) = [0]
     \<and> items (collideBullets volleyState)
         = [expectedAttackItem \<lparr>x = 200, y = 100, w = 56, h = 56, hp = 5, maxHp = 32\<rparr>]
     \<and> map life (bullets (collideBullets volleyState)) = [0, 0, 1]"
    by code_simp
  from destroyed_obstacle_drops_one_item [of volleyState] e show ?thesis
    by blast
qed

subsection \<open>The attack bonus\<close>

lemma collectItem_attackBonus:
  "attackBonus (snd (collectItem dy dt it t))
     = (if \<not> collected it \<and> aabb (player t) (it\<lparr>y := y it + dy + item_vy it * dt\<rparr>)
        then min MAX_ATTACK_BONUS (attackBonus t + bonus it) else attackBonus t)"
  by (simp add: collectItem_def Let_def)

lemma collectItem_bonus [simp]: "bonus (fst (collectItem dy dt it t)) = bonus it"
  by (simp add: collectItem_def Let_def)

lemma forEach_collectItem_bonus:
  "map bonus (fst (forEach (collectItem dy dt) its t)) = map bonus its"
  by (induction its arbitrary: t) simp_all

lemma forEach_collectItem_bounds:
  "\<forall>it\<in>set its. 0 \<le> bonus it \<Longrightarrow> 0 \<le> attackBonus t \<Longrightarrow>
   attackBonus t \<le> MAX_ATTACK_BONUS \<Longrightarrow>
   0 \<le> attackBonus (snd (forEach (collectItem dy dt) its t))
   \<and> attackBonus (snd (forEach (collectItem dy dt) its t)) \<le> MAX_ATTACK_BONUS"
proof (induction its arbitrary: t)
  case Nil
  then show ?case by simp
next
  case (Cons it its)
  have "0 \<le> attackBonus (snd (collectItem dy dt it t))"
    "attackBonus (snd (collectItem dy dt it t)) \<le> MAX_ATTACK_BONUS"
    using Cons.prems by (simp_all add: collectItem_attackBonus MAX_ATTACK_BONUS_def)
  with Cons.IH [of "snd (collectItem dy dt it t)"] Cons.prems(1) show ?case by simp
qed

lemma attackInvariant_collectItems:
  assumes "attackInvariant s"
  shows "attackInvariant (collectItems dy dt s)"
proof -
  let ?r = "forEach (collectItem dy dt) (items s) s"
  have b: "\<forall>it\<in>set (items s). 1 \<le> bonus it \<and> bonus it \<le> MAX_ATTACK_BONUS"
    using assms by (simp add: attackInvariant_def list_all_iff)
  then have b0: "\<forall>it\<in>set (items s). 0 \<le> bonus it" by auto
  have ab: "0 \<le> attackBonus (snd ?r) \<and> attackBonus (snd ?r) \<le> MAX_ATTACK_BONUS"
    using assms by (intro forEach_collectItem_bounds b0) (simp_all add: attackInvariant_def)
  have "set (map bonus (fst ?r)) = set (map bonus (items s))"
    by (simp only: forEach_collectItem_bonus)
  then have "\<forall>it\<in>set (fst ?r). 1 \<le> bonus it \<and> bonus it \<le> MAX_ATTACK_BONUS"
    using b by (metis (no_types, lifting) image_iff list.set_map)
  with ab show ?thesis
    by (simp add: attackInvariant_def collectItems_def split_def Let_def list_all_iff)
qed

lemma expectedAttackItem_bonus:
  "1 \<le> bonus (expectedAttackItem ob) \<and> bonus (expectedAttackItem ob) \<le> MAX_ATTACK_BONUS"
  by (simp add: expectedAttackItem_def MAX_ATTACK_BONUS_def)

lemma attackInvariant_collideBullets:
  assumes "attackInvariant s"
  shows "attackInvariant (collideBullets s)"
proof -
  obtain new where n: "items (collideBullets s) = items s @ new"
    "mset new = mset (map expectedAttackItem
                        (destroyed (obstacles s) (obstacles (collideBullets s))))"
    using collideBullets_obstacles_items [of s] by blast
  from n(2) have "set new = set (map expectedAttackItem
                        (destroyed (obstacles s) (obstacles (collideBullets s))))"
    by (rule mset_eq_setD)
  then have "\<forall>it\<in>set new. 1 \<le> bonus it \<and> bonus it \<le> MAX_ATTACK_BONUS"
    using expectedAttackItem_bonus by auto
  with assms show ?thesis
    by (auto simp: attackInvariant_def n(1) list_all_iff)
qed

lemma attackInvariant_cong:
  "attackBonus t = attackBonus s \<Longrightarrow> items t = items s \<Longrightarrow>
   attackInvariant t = attackInvariant s"
  by (simp add: attackInvariant_def)

lemma attackInvariant_moveAndResolve:
  assumes "attackInvariant s"
  shows "attackInvariant (moveAndResolve dt s)"
proof -
  define s6 where "s6 = shootAtNearest dt (crossGates (scrollWorld (speed (glidePlayer (advanceClock dt (resizePlayer s))) * dt)
     (glidePlayer (advanceClock dt (resizePlayer s)))))"
  define s7 where "s7 = s6\<lparr>bullets := map (advanceBullet dt) (bullets s6)\<rparr>"
  define dy where "dy = speed (glidePlayer (advanceClock dt (resizePlayer s))) * dt"
  have "attackInvariant s7"
    using assms by (simp add: attackInvariant_def s7_def s6_def)
  then have "attackInvariant (collideBullets s7)"
    by (rule attackInvariant_collideBullets)
  then have "attackInvariant (contactDamage (collideBullets s7))"
    by (simp add: attackInvariant_def)
  then have "attackInvariant (collectItems dy dt (contactDamage (collideBullets s7)))"
    by (rule attackInvariant_collectItems)
  then have "attackInvariant ((collectItems dy dt (contactDamage (collideBullets s7)))
      \<lparr>floaters := map (advanceFloater dt)
         (floaters (collectItems dy dt (contactDamage (collideBullets s7))))\<rparr>)"
    by (simp add: attackInvariant_def)
  then show ?thesis
    by (simp add: moveAndResolve_def Let_def s7_def s6_def dy_def)
qed

lemma attackInvariant_update:
  assumes "attackInvariant s"
  shows "attackInvariant (update dt s)"
proof (cases "alive s")
  case False
  with assms show ?thesis by (simp add: update_def)
next
  case True
  have "attackInvariant (moveAndResolve dt s)"
    using assms by (rule attackInvariant_moveAndResolve)
  then have "attackInvariant (prune (moveAndResolve dt s))"
    by (simp add: attackInvariant_def prune_def list_all_iff)
  then have "attackInvariant (publishHud dt (ensureBossSpawn (ensureSpawns (prune (moveAndResolve dt s)))))"
    by (simp add: attackInvariant_def)
  with True show ?thesis by (simp add: update_def)
qed

lemma reachable_attackInvariant: "reachable s \<Longrightarrow> attackInvariant s"
proof (induction rule: reachable.induct)
  case (start r)
  show ?case by (simp add: attackInvariant_def initialState_def MAX_ATTACK_BONUS_def)
next
  case (frame s dt)
  then show ?case by (simp add: attackInvariant_update)
next
  case (pointer_down s lx)
  then show ?case by (simp add: attackInvariant_def onPointerDown_def)
next
  case (pointer_move s lx)
  then show ?case by (simp add: attackInvariant_def onPointerMove_def)
next
  case (pointer_up s)
  then show ?case by (simp add: attackInvariant_def onPointerUp_def)
qed

text \<open>
  C9. In every state a run can reach the attack bonus is between 0 and 6. It starts at 0,
  and collecting an item sets it to the smaller of 6 and the old bonus plus the item's
  bonus; an item that is already collected or does not overlap the player leaves it alone.
\<close>

theorem attackBonus_within_cap:
  "(reachable s \<longrightarrow> 0 \<le> attackBonus s \<and> attackBonus s \<le> 6)
   \<and> attackBonus (ensureSpawns (initialState r)) = 0
   \<and> attackBonus (snd (collectItem dy dt it t))
       = (if \<not> collected it \<and> aabb (player t) (it\<lparr>y := y it + dy + item_vy it * dt\<rparr>)
          then min 6 (attackBonus t + bonus it) else attackBonus t)"
  using reachable_attackInvariant [of s] collectItem_attackBonus [of dy dt it t]
  by (simp add: attackInvariant_def MAX_ATTACK_BONUS_def initialState_def)

theorem attackBonus_within_cap_witness:
  "reachable (update (1 / 60) (ensureSpawns (initialState (\<lambda>_. 0))))
   \<and> 0 \<le> attackBonus (update (1 / 60) (ensureSpawns (initialState (\<lambda>_. 0))))
   \<and> attackBonus (update (1 / 60) (ensureSpawns (initialState (\<lambda>_. 0)))) \<le> 6"
proof -
  have "reachable (update (1 / 60) (ensureSpawns (initialState (\<lambda>_. 0))))"
    by (intro reachable.frame reachable.start)
  then show ?thesis
    using attackBonus_within_cap [of "update (1 / 60) (ensureSpawns (initialState (\<lambda>_. 0)))"]
    by simp
qed




subsection \<open>Score zero and the alive flag\<close>

text \<open>
  C2. The gate loop lowers the score to 0 without touching the alive flag. At the start of
  a run (score 1) the player crosses a \<open>-5\<close> gate: after the frame the score is 0 and the
  player is still alive, and the next frame still advances the clock. Also, once a boss at
  the bottom of the lane has cleared the alive flag, the gate loop of the same frame still
  changes the score (1 to 6 through a \<open>+5\<close> gate).
\<close>

theorem gate_to_zero_keeps_alive:
  "scoreValue gateTrapState = 1 \<and> alive gateTrapState
   \<and> scoreValue (update (1 / 60) gateTrapState) = 0
   \<and> alive (update (1 / 60) gateTrapState)
   \<and> time (update (1 / 60) (update (1 / 60) gateTrapState)) = 1 / 30
   \<and> scoreValue bossGateState = 1 \<and> alive bossGateState
   \<and> \<not> alive (update (1 / 60) bossGateState)
   \<and> scoreValue (update (1 / 60) bossGateState) = 6"
  by code_simp

subsection \<open>A frame of zero length\<close>

lemma unmoved_refl [simp]: "unmoved s s"
  by (simp add: unmoved_def)






lemma scrollY_zero [simp]: "scrollY 0 r = r"
  by (simp add: scrollY_def)

lemma map_scrollY_zero [simp]: "map (scrollY 0) rs = rs"
  by (simp add: map_idI)









lemma advanceBullet_zero [simp]: "advanceBullet 0 b = b"
  by (simp add: advanceBullet_def)

lemma advanceFloater_zero [simp]: "advanceFloater 0 f = f"
  by (simp add: advanceFloater_def)

lemma map_advanceBullet_zero [simp]: "map (advanceBullet 0) bs = bs"
  by (simp add: map_idI)

lemma map_advanceFloater_zero [simp]: "map (advanceFloater 0) fs = fs"
  by (simp add: map_idI)
























end
